theory Spec2Isabelle
  imports Main "HOL-Library.Code_Target_Nat"
begin

section \<open>Raw storage, element type and observable events\<close>

text \<open>
  The source is \<^verbatim>\<open>advanced-vector/vector.h\<close>: the class templates \<^verbatim>\<open>RawMemory<T>\<close> and
  \<^verbatim>\<open>Vector<T>\<close>.  A cell of a raw block is either uninitialised storage or holds a live
  object of the element type.  The members \<^verbatim>\<open>buffer_\<close>, \<^verbatim>\<open>capacity_\<close>, \<^verbatim>\<open>data_\<close>
  and \<^verbatim>\<open>size_\<close> are written \<open>buffer_m\<close>, \<open>capacity_m\<close>, \<open>data_m\<close> and \<open>size_m\<close>.
\<close>

datatype 'a slot = Raw | Obj 'a

text \<open>The special member functions of \<^verbatim>\<open>T\<close> that the vector invokes.\<close>

datatype special = DefaultCtor | CopyCtor | MoveCtor | ArgsCtor | CopyAssign | MoveAssign

datatype event =
    Allocated nat nat
  | Deallocated nat
  | Constructed special nat nat
  | Assigned special nat nat
  | Destroyed nat nat
  | Threw special

datatype exn = BadAlloc | MemberThrew special

text \<open>
  What lies outside the vector: how many blocks \<^verbatim>\<open>operator new\<close> has handed out (the next
  block gets the address \<open>Suc (blocks w)\<close>, so that no block has the null address \<open>0\<close>), how
  many special member functions of \<^verbatim>\<open>T\<close> have been invoked, and the events so far.
\<close>

record world =
  blocks :: nat
  calls :: nat
  trace :: "event list"

text \<open>
  What the templates are instantiated and compiled with.  \<open>debug\<close>: \<^verbatim>\<open>NDEBUG\<close> is not
  defined, so \<^verbatim>\<open>assert\<close> is active.  \<open>nothrow_move_constructible\<close> and
  \<open>copy_constructible\<close> are the two type traits the source tests.  \<open>implicit_lifetime\<close>:
  \<^verbatim>\<open>T\<close> is a type such as \<^verbatim>\<open>int\<close>, for which an assignment through a pointer to raw storage
  is defined; for any other type it is undefined behaviour.  \<open>default_value\<close> is what
  value-initialisation yields, \<open>moved_from x\<close> what a move leaves in its source.
  \<open>throws k n\<close>: the invocation number \<open>n\<close> (counted over all special member functions
  from \<open>0\<close>) throws if it is an invocation of \<open>k\<close>.  \<open>sizeof_T\<close> is \<^verbatim>\<open>sizeof (T)\<close>.
  \<open>bad_alloc b n\<close>: \<^verbatim>\<open>operator new\<close> fails for a request of \<open>n\<close> bytes made after \<open>b\<close>
  blocks have been handed out.
\<close>

record 'a setting =
  debug :: bool
  nothrow_move_constructible :: bool
  copy_constructible :: bool
  implicit_lifetime :: bool
  default_value :: 'a
  moved_from :: "'a \<Rightarrow> 'a"
  throws :: "special \<Rightarrow> nat \<Rightarrow> bool"
  sizeof_T :: nat
  bad_alloc :: "nat \<Rightarrow> nat \<Rightarrow> bool"

text \<open>
  The outcome of a call: it returns \<open>r\<close> in state \<open>s\<close>, it leaves by an exception in state
  \<open>s\<close>, an \<^verbatim>\<open>assert\<close> aborts the program, or the behaviour is undefined.
\<close>

datatype ('r, 's) result = Normal 'r 's | Exception exn 's | AssertFail | Undefined

definition may_throw :: "'a setting \<Rightarrow> special \<Rightarrow> nat \<Rightarrow> bool" where
  "may_throw cfg k n =
     (throws cfg k n \<and> \<not> (k = MoveCtor \<and> nothrow_move_constructible cfg))"

definition PTRDIFF_MAX :: nat where
  "PTRDIFF_MAX = 2 ^ 63 - 1"

definition is_Obj :: "'a slot \<Rightarrow> bool" where
  "is_Obj c = (case c of Raw \<Rightarrow> False | Obj x \<Rightarrow> True)"

definition is_Raw :: "'a slot \<Rightarrow> bool" where
  "is_Raw c = (case c of Raw \<Rightarrow> True | Obj x \<Rightarrow> False)"

text \<open>Reading the object in cell \<open>i\<close>: there is none outside the block or in a raw cell.\<close>

definition read_obj :: "'a slot list \<Rightarrow> nat \<Rightarrow> 'a option" where
  "read_obj cs i =
     (if i < length cs then (case cs ! i of Raw \<Rightarrow> None | Obj x \<Rightarrow> Some x) else None)"

text \<open>
  Placement \<^verbatim>\<open>new (p) T(...)\<close> at cell \<open>i\<close> of the block at address \<open>a\<close>, by the
  constructor \<open>k\<close>, giving the value \<open>x\<close>.  A live object already in the cell is overwritten
  without its destructor being run.
\<close>

definition construct_at ::
  "'a setting \<Rightarrow> special \<Rightarrow> 'a \<Rightarrow> nat \<Rightarrow> nat \<Rightarrow> 'a slot list \<times> world
     \<Rightarrow> (unit, 'a slot list \<times> world) result" where
  "construct_at cfg k x a i s =
     (case s of (cs, w) \<Rightarrow>
        if \<not> i < length cs then Undefined
        else if may_throw cfg k (calls w)
        then Exception (MemberThrew k)
               (cs, w\<lparr>calls := Suc (calls w), trace := trace w @ [Threw k]\<rparr>)
        else Normal ()
               (cs[i := Obj x],
                w\<lparr>calls := Suc (calls w), trace := trace w @ [Constructed k a i]\<rparr>))"

text \<open>
  An assignment \<^verbatim>\<open>*p = ...\<close> to cell \<open>i\<close> by the assignment operator \<open>k\<close>.  Assigning to
  a raw cell is defined only for an implicit-lifetime type.
\<close>

definition assign_at ::
  "'a setting \<Rightarrow> special \<Rightarrow> 'a \<Rightarrow> nat \<Rightarrow> nat \<Rightarrow> 'a slot list \<times> world
     \<Rightarrow> (unit, 'a slot list \<times> world) result" where
  "assign_at cfg k x a i s =
     (case s of (cs, w) \<Rightarrow>
        if \<not> i < length cs then Undefined
        else if is_Raw (cs ! i) \<and> \<not> implicit_lifetime cfg then Undefined
        else if may_throw cfg k (calls w)
        then Exception (MemberThrew k)
               (cs, w\<lparr>calls := Suc (calls w), trace := trace w @ [Threw k]\<rparr>)
        else Normal ()
               (cs[i := Obj x],
                w\<lparr>calls := Suc (calls w), trace := trace w @ [Assigned k a i]\<rparr>))"

text \<open>\<^verbatim>\<open>std::destroy_at(p)\<close>, \<^verbatim>\<open>Destroy\<close>: the destructor does not throw.\<close>

definition destroy_at ::
  "nat \<Rightarrow> nat \<Rightarrow> 'a slot list \<times> world \<Rightarrow> (unit, 'a slot list \<times> world) result" where
  "destroy_at a i s =
     (case s of (cs, w) \<Rightarrow>
        if i < length cs \<and> is_Obj (cs ! i)
        then Normal () (cs[i := Raw], w\<lparr>trace := trace w @ [Destroyed a i]\<rparr>)
        else Undefined)"

text \<open>\<^verbatim>\<open>std::destroy_n(first, n)\<close>, \<^verbatim>\<open>DestroyN\<close>: cells \<open>first, first + 1, ...\<close> in turn.\<close>

fun destroy_n ::
  "nat \<Rightarrow> nat \<Rightarrow> nat \<Rightarrow> 'a slot list \<times> world \<Rightarrow> (unit, 'a slot list \<times> world) result" where
  "destroy_n a first 0 s = Normal () s"
| "destroy_n a first (Suc n) s =
     (case destroy_at a first s of
        Normal u s' \<Rightarrow> destroy_n a (Suc first) n s'
      | Exception e s' \<Rightarrow> Exception e s'
      | AssertFail \<Rightarrow> AssertFail
      | Undefined \<Rightarrow> Undefined)"

text \<open>\<^verbatim>\<open>std::destroy(first, last)\<close> on pointers into one block.\<close>

definition destroy_range ::
  "nat \<Rightarrow> nat \<Rightarrow> nat \<Rightarrow> 'a slot list \<times> world \<Rightarrow> (unit, 'a slot list \<times> world) result" where
  "destroy_range a first lst s =
     (if lst < first then Undefined else destroy_n a first (lst - first) s)"

section \<open>RawMemory\<close>

text \<open>
  \<open>buffer_m\<close> is the pointer \<^verbatim>\<open>buffer_\<close> (\<open>0\<close> is \<^verbatim>\<open>nullptr\<close>) and \<open>cells\<close> the storage it
  points to.  \<^verbatim>\<open>RawMemory\<close> cannot be copied, so a block has one owner, and its storage
  travels with the pointer.  A pointer into the block is its offset from \<^verbatim>\<open>buffer_\<close>.
  \<^verbatim>\<open>size_t\<close> values are natural numbers; the two products the source forms
  (\<^verbatim>\<open>n * sizeof(T)\<close> and \<^verbatim>\<open>size_ * 2\<close>) are written out modulo \<open>2 ^ 64\<close>.
\<close>

record 'a RawMemory =
  buffer_m :: nat
  capacity_m :: nat
  cells :: "'a slot list"

text \<open>\<^verbatim>\<open>RawMemory() = default\<close>\<close>

definition RawMemory_default :: "'a RawMemory" where
  "RawMemory_default = \<lparr>buffer_m = 0, capacity_m = 0, cells = []\<rparr>"

text \<open>\<^verbatim>\<open>sizeof (T)\<close>, which is never \<open>0\<close>.\<close>

definition sizeof :: "'a setting \<Rightarrow> nat" where
  "sizeof cfg = max 1 (sizeof_T cfg)"

text \<open>The argument \<^verbatim>\<open>n * sizeof(T)\<close> of \<^verbatim>\<open>operator new\<close> (line 87), a product in \<^verbatim>\<open>size_t\<close>.\<close>

definition block_bytes :: "'a setting \<Rightarrow> nat \<Rightarrow> nat" where
  "block_bytes cfg n = (n * sizeof cfg) mod 2 ^ 64"

text \<open>
  Whether \<^verbatim>\<open>operator new\<close> throws \<^verbatim>\<open>std::bad_alloc\<close> when \<^verbatim>\<open>Allocate (n)\<close> calls it: no
  block has more than \<open>PTRDIFF_MAX\<close> bytes, and below that the setting decides.
\<close>

definition refuses :: "'a setting \<Rightarrow> world \<Rightarrow> nat \<Rightarrow> bool" where
  "refuses cfg w n =
     (PTRDIFF_MAX < block_bytes cfg n \<or> bad_alloc cfg (blocks w) (block_bytes cfg n))"

text \<open>
  \<^verbatim>\<open>static T* Allocate(size_t n)\<close>: the pointer and the fresh storage behind it.  The block
  has as many cells as fit into the bytes requested: where the product wraps around, fewer
  than \<open>n\<close>, and none for a request of \<open>0\<close> bytes, which \<^verbatim>\<open>operator new\<close> answers with a
  pointer that is not null.  The event records \<open>n\<close>.
\<close>

definition Allocate ::
  "'a setting \<Rightarrow> nat \<Rightarrow> world \<Rightarrow> (nat \<times> 'a slot list, world) result" where
  "Allocate cfg n w =
     (if n \<noteq> 0
      then (if refuses cfg w n
            then Exception BadAlloc w
            else Normal (Suc (blocks w), replicate (block_bytes cfg n div sizeof cfg) Raw)
                   (w\<lparr>blocks := Suc (blocks w),
                      trace := trace w @ [Allocated (Suc (blocks w)) n]\<rparr>))
      else Normal (0, []) w)"

text \<open>\<^verbatim>\<open>static void Deallocate(T* buf) noexcept\<close>: \<^verbatim>\<open>operator delete\<close> of a null pointer does
  nothing.  Objects still alive in the block are not destructed.\<close>

definition Deallocate :: "nat \<Rightarrow> world \<Rightarrow> world" where
  "Deallocate buf w = (if buf = 0 then w else w\<lparr>trace := trace w @ [Deallocated buf]\<rparr>)"

text \<open>\<^verbatim>\<open>explicit RawMemory(size_t capacity)\<close>\<close>

definition RawMemory_ctor ::
  "'a setting \<Rightarrow> nat \<Rightarrow> world \<Rightarrow> ('a RawMemory, world) result" where
  "RawMemory_ctor cfg capacity w =
     (case Allocate cfg capacity w of
        Normal p w' \<Rightarrow>
          Normal \<lparr>buffer_m = fst p, capacity_m = capacity, cells = snd p\<rparr> w'
      | Exception e w' \<Rightarrow> Exception e w'
      | AssertFail \<Rightarrow> AssertFail
      | Undefined \<Rightarrow> Undefined)"

text \<open>\<^verbatim>\<open>~RawMemory()\<close>\<close>

definition RawMemory_dtor :: "'a RawMemory \<Rightarrow> world \<Rightarrow> world" where
  "RawMemory_dtor m w = Deallocate (buffer_m m) w"

text \<open>\<^verbatim>\<open>void Swap(RawMemory& other) noexcept\<close>: the new \<^verbatim>\<open>*this\<close> and the new \<^verbatim>\<open>other\<close>.\<close>

definition RawMemory_Swap :: "'a RawMemory \<Rightarrow> 'a RawMemory \<Rightarrow> 'a RawMemory \<times> 'a RawMemory" where
  "RawMemory_Swap this other =
     (this\<lparr>buffer_m := buffer_m other, capacity_m := capacity_m other, cells := cells other\<rparr>,
      other\<lparr>buffer_m := buffer_m this, capacity_m := capacity_m this, cells := cells this\<rparr>)"

text \<open>\<^verbatim>\<open>RawMemory(RawMemory&& other) noexcept\<close>: the new object and what is left of \<^verbatim>\<open>other\<close>.\<close>

definition RawMemory_move_ctor :: "'a RawMemory \<Rightarrow> 'a RawMemory \<times> 'a RawMemory" where
  "RawMemory_move_ctor other = RawMemory_Swap RawMemory_default other"

text \<open>\<^verbatim>\<open>RawMemory& operator=(RawMemory&& rhs) noexcept\<close>\<close>

definition RawMemory_move_assign ::
  "'a RawMemory \<Rightarrow> 'a RawMemory \<Rightarrow> 'a RawMemory \<times> 'a RawMemory" where
  "RawMemory_move_assign this rhs =
     (if buffer_m this \<noteq> buffer_m rhs then RawMemory_Swap this rhs else (this, rhs))"

text \<open>
  \<^verbatim>\<open>std::swap(a, b)\<close> on two distinct \<^verbatim>\<open>RawMemory\<close> objects, as the library defines it:
  \<^verbatim>\<open>RawMemory tmp(std::move(a)); a = std::move(b); b = std::move(tmp);\<close> and then the
  destructor of \<^verbatim>\<open>tmp\<close>.
\<close>

definition std_swap_RawMemory ::
  "'a RawMemory \<Rightarrow> 'a RawMemory \<Rightarrow> world \<Rightarrow> 'a RawMemory \<times> 'a RawMemory \<times> world" where
  "std_swap_RawMemory a b w =
     (case RawMemory_move_ctor a of (tmp, a1) \<Rightarrow>
      case RawMemory_move_assign a1 b of (a2, b1) \<Rightarrow>
      case RawMemory_move_assign b1 tmp of (b2, tmp1) \<Rightarrow>
        (a2, b2, RawMemory_dtor tmp1 w))"

text \<open>\<^verbatim>\<open>T& operator[](size_t index) noexcept\<close> of \<^verbatim>\<open>RawMemory\<close>, read as the object referred to.\<close>

definition RawMemory_at :: "'a setting \<Rightarrow> 'a RawMemory \<Rightarrow> nat \<Rightarrow> ('a, unit) result" where
  "RawMemory_at cfg m index =
     (if debug cfg \<and> \<not> index < capacity_m m then AssertFail
      else (case read_obj (cells m) index of None \<Rightarrow> Undefined | Some x \<Rightarrow> Normal x ()))"

text \<open>\<^verbatim>\<open>T* operator+(size_t offset) noexcept\<close>: whether its \<^verbatim>\<open>assert\<close> aborts.\<close>

definition plus_aborts :: "'a setting \<Rightarrow> 'a RawMemory \<Rightarrow> nat \<Rightarrow> bool" where
  "plus_aborts cfg m offset = (debug cfg \<and> \<not> offset \<le> capacity_m m)"

section \<open>The library algorithms on uninitialised storage\<close>

text \<open>
  \<^verbatim>\<open>std::uninitialized_copy_n(first, n, result)\<close> from the block \<open>src\<close> into the block at
  address \<open>a\<close>.  The loop carries \<open>cur\<close>, the next cell to construct; when a constructor
  throws, the library destroys the cells \<open>[result, cur)\<close> and rethrows.
\<close>

fun copy_loop ::
  "'a setting \<Rightarrow> 'a slot list \<Rightarrow> nat \<Rightarrow> nat \<Rightarrow> nat \<Rightarrow> nat \<times> 'a slot list \<times> world
     \<Rightarrow> (unit, nat \<times> 'a slot list \<times> world) result" where
  "copy_loop cfg src first 0 a s = Normal () s"
| "copy_loop cfg src first (Suc n) a s =
     (case s of (cur, dst, w) \<Rightarrow>
      case read_obj src first of
        None \<Rightarrow> Undefined
      | Some x \<Rightarrow>
          (case construct_at cfg CopyCtor x a cur (dst, w) of
             Normal u s' \<Rightarrow> copy_loop cfg src (Suc first) n a (Suc cur, s')
           | Exception e s' \<Rightarrow> Exception e (cur, s')
           | AssertFail \<Rightarrow> AssertFail
           | Undefined \<Rightarrow> Undefined))"

definition uninitialized_copy_n ::
  "'a setting \<Rightarrow> 'a slot list \<Rightarrow> nat \<Rightarrow> nat \<Rightarrow> nat \<Rightarrow> nat \<Rightarrow> 'a slot list \<times> world
     \<Rightarrow> (unit, 'a slot list \<times> world) result" where
  "uninitialized_copy_n cfg src first n a res s =
     (case copy_loop cfg src first n a (res, s) of
        Normal u (cur, s') \<Rightarrow> Normal () s'
      | Exception e (cur, s') \<Rightarrow>
          (case destroy_range a res cur s' of
             Normal u s'' \<Rightarrow> Exception e s''
           | Exception e' s'' \<Rightarrow> Undefined
           | AssertFail \<Rightarrow> AssertFail
           | Undefined \<Rightarrow> Undefined)
      | AssertFail \<Rightarrow> AssertFail
      | Undefined \<Rightarrow> Undefined)"

text \<open>
  \<^verbatim>\<open>std::uninitialized_move_n(first, n, result)\<close>: as above with the move constructor,
  which leaves \<open>moved_from x\<close> in the source cell.
\<close>

fun move_loop ::
  "'a setting \<Rightarrow> nat \<Rightarrow> nat \<Rightarrow> nat \<Rightarrow> nat \<times> 'a slot list \<times> 'a slot list \<times> world
     \<Rightarrow> (unit, nat \<times> 'a slot list \<times> 'a slot list \<times> world) result" where
  "move_loop cfg first 0 a s = Normal () s"
| "move_loop cfg first (Suc n) a s =
     (case s of (cur, src, dst, w) \<Rightarrow>
      case read_obj src first of
        None \<Rightarrow> Undefined
      | Some x \<Rightarrow>
          (case construct_at cfg MoveCtor x a cur (dst, w) of
             Normal u (dst', w') \<Rightarrow>
               move_loop cfg (Suc first) n a
                 (Suc cur, src[first := Obj (moved_from cfg x)], dst', w')
           | Exception e (dst', w') \<Rightarrow> Exception e (cur, src, dst', w')
           | AssertFail \<Rightarrow> AssertFail
           | Undefined \<Rightarrow> Undefined))"

definition uninitialized_move_n ::
  "'a setting \<Rightarrow> nat \<Rightarrow> nat \<Rightarrow> nat \<Rightarrow> nat \<Rightarrow> 'a slot list \<times> 'a slot list \<times> world
     \<Rightarrow> (unit, 'a slot list \<times> 'a slot list \<times> world) result" where
  "uninitialized_move_n cfg first n a res s =
     (case move_loop cfg first n a (res, s) of
        Normal u (cur, s') \<Rightarrow> Normal () s'
      | Exception e (cur, src, dst, w) \<Rightarrow>
          (case destroy_range a res cur (dst, w) of
             Normal u (dst', w') \<Rightarrow> Exception e (src, dst', w')
           | Exception e' s'' \<Rightarrow> Undefined
           | AssertFail \<Rightarrow> AssertFail
           | Undefined \<Rightarrow> Undefined)
      | AssertFail \<Rightarrow> AssertFail
      | Undefined \<Rightarrow> Undefined)"

text \<open>\<^verbatim>\<open>std::uninitialized_value_construct_n(first, n)\<close>\<close>

fun value_loop ::
  "'a setting \<Rightarrow> nat \<Rightarrow> nat \<Rightarrow> nat \<times> 'a slot list \<times> world
     \<Rightarrow> (unit, nat \<times> 'a slot list \<times> world) result" where
  "value_loop cfg 0 a s = Normal () s"
| "value_loop cfg (Suc n) a s =
     (case s of (cur, dst, w) \<Rightarrow>
      case construct_at cfg DefaultCtor (default_value cfg) a cur (dst, w) of
        Normal u s' \<Rightarrow> value_loop cfg n a (Suc cur, s')
      | Exception e s' \<Rightarrow> Exception e (cur, s')
      | AssertFail \<Rightarrow> AssertFail
      | Undefined \<Rightarrow> Undefined)"

definition uninitialized_value_construct_n ::
  "'a setting \<Rightarrow> nat \<Rightarrow> nat \<Rightarrow> nat \<Rightarrow> 'a slot list \<times> world
     \<Rightarrow> (unit, 'a slot list \<times> world) result" where
  "uninitialized_value_construct_n cfg a first n s =
     (case value_loop cfg n a (first, s) of
        Normal u (cur, s') \<Rightarrow> Normal () s'
      | Exception e (cur, s') \<Rightarrow>
          (case destroy_range a first cur s' of
             Normal u s'' \<Rightarrow> Exception e s''
           | Exception e' s'' \<Rightarrow> Undefined
           | AssertFail \<Rightarrow> AssertFail
           | Undefined \<Rightarrow> Undefined)
      | AssertFail \<Rightarrow> AssertFail
      | Undefined \<Rightarrow> Undefined)"

section \<open>The library algorithms on live ranges of one block\<close>

text \<open>
  \<^verbatim>\<open>std::move(first, last, d_first)\<close>: \<^verbatim>\<open>*d_first++ = std::move(*first++)\<close>, \<open>n\<close> times.
\<close>

fun move_forward_loop ::
  "'a setting \<Rightarrow> nat \<Rightarrow> nat \<Rightarrow> nat \<Rightarrow> nat \<Rightarrow> 'a slot list \<times> world
     \<Rightarrow> (unit, 'a slot list \<times> world) result" where
  "move_forward_loop cfg a first 0 d_first s = Normal () s"
| "move_forward_loop cfg a first (Suc n) d_first s =
     (case s of (cs, w) \<Rightarrow>
      case read_obj cs first of
        None \<Rightarrow> Undefined
      | Some x \<Rightarrow>
          (case assign_at cfg MoveAssign x a d_first (cs, w) of
             Normal u (cs', w') \<Rightarrow>
               move_forward_loop cfg a (Suc first) n (Suc d_first)
                 (cs'[first := Obj (moved_from cfg x)], w')
           | Exception e s' \<Rightarrow> Exception e s'
           | AssertFail \<Rightarrow> AssertFail
           | Undefined \<Rightarrow> Undefined))"

definition std_move ::
  "'a setting \<Rightarrow> nat \<Rightarrow> nat \<Rightarrow> nat \<Rightarrow> nat \<Rightarrow> 'a slot list \<times> world
     \<Rightarrow> (unit, 'a slot list \<times> world) result" where
  "std_move cfg a first lst d_first s =
     (if lst < first then Undefined
      else move_forward_loop cfg a first (lst - first) d_first s)"

text \<open>
  \<^verbatim>\<open>std::move_backward(first, last, d_last)\<close> (\<open>k = MoveAssign\<close>) and
  \<^verbatim>\<open>std::copy_backward(first, last, d_last)\<close> (\<open>k = CopyAssign\<close>):
  \<^verbatim>\<open>*(--d_last) = *(--last)\<close>, \<open>n\<close> times.
\<close>

fun backward_loop ::
  "'a setting \<Rightarrow> special \<Rightarrow> nat \<Rightarrow> nat \<Rightarrow> nat \<Rightarrow> nat \<Rightarrow> 'a slot list \<times> world
     \<Rightarrow> (unit, 'a slot list \<times> world) result" where
  "backward_loop cfg k a 0 lst d_last s = Normal () s"
| "backward_loop cfg k a (Suc n) lst d_last s =
     (case s of (cs, w) \<Rightarrow>
      if lst = 0 \<or> d_last = 0 then Undefined
      else
        (case read_obj cs (lst - 1) of
           None \<Rightarrow> Undefined
         | Some x \<Rightarrow>
             (case assign_at cfg k x a (d_last - 1) (cs, w) of
                Normal u (cs', w') \<Rightarrow>
                  backward_loop cfg k a n (lst - 1) (d_last - 1)
                    (if k = MoveAssign then cs'[lst - 1 := Obj (moved_from cfg x)] else cs', w')
              | Exception e s' \<Rightarrow> Exception e s'
              | AssertFail \<Rightarrow> AssertFail
              | Undefined \<Rightarrow> Undefined)))"

definition move_backward ::
  "'a setting \<Rightarrow> nat \<Rightarrow> nat \<Rightarrow> nat \<Rightarrow> nat \<Rightarrow> 'a slot list \<times> world
     \<Rightarrow> (unit, 'a slot list \<times> world) result" where
  "move_backward cfg a first lst d_last s =
     (if lst < first then Undefined
      else backward_loop cfg MoveAssign a (lst - first) lst d_last s)"

definition copy_backward ::
  "'a setting \<Rightarrow> nat \<Rightarrow> nat \<Rightarrow> nat \<Rightarrow> nat \<Rightarrow> 'a slot list \<times> world
     \<Rightarrow> (unit, 'a slot list \<times> world) result" where
  "copy_backward cfg a first lst d_last s =
     (if lst < first then Undefined
      else backward_loop cfg CopyAssign a (lst - first) lst d_last s)"

section \<open>Vector\<close>

record 'a Vector =
  data_m :: "'a RawMemory"
  size_m :: nat

definition Size :: "'a Vector \<Rightarrow> nat" where
  "Size v = size_m v"

definition Capacity :: "'a Vector \<Rightarrow> nat" where
  "Capacity v = capacity_m (data_m v)"

text \<open>The vector with the storage of its block replaced by \<open>cs\<close>.\<close>

definition with_cells :: "'a Vector \<Rightarrow> 'a slot list \<Rightarrow> 'a Vector" where
  "with_cells v cs = v\<lparr>data_m := (data_m v)\<lparr>cells := cs\<rparr>\<rparr>"

text \<open>\<^verbatim>\<open>T& operator[](size_t index) noexcept\<close>, read as the object referred to.\<close>

definition Vector_at :: "'a setting \<Rightarrow> 'a Vector \<Rightarrow> nat \<Rightarrow> ('a, unit) result" where
  "Vector_at cfg v index =
     (if debug cfg \<and> \<not> index < size_m v then AssertFail
      else RawMemory_at cfg (data_m v) index)"

text \<open>
  \<^verbatim>\<open>SafeCopyingOrMoving(from, n_el, to)\<close>: the state is the storage of the source block,
  the storage of the target block (at address \<open>a\<close>) and the world.
\<close>

definition SafeCopyingOrMoving ::
  "'a setting \<Rightarrow> nat \<Rightarrow> nat \<Rightarrow> nat \<Rightarrow> nat \<Rightarrow> 'a slot list \<times> 'a slot list \<times> world
     \<Rightarrow> (unit, 'a slot list \<times> 'a slot list \<times> world) result" where
  "SafeCopyingOrMoving cfg from n_el a to s =
     (case s of (src, dst, w) \<Rightarrow>
        if nothrow_move_constructible cfg \<or> \<not> copy_constructible cfg
        then uninitialized_move_n cfg from n_el a to (src, dst, w)
        else
          (case uninitialized_copy_n cfg src from n_el a to (dst, w) of
             Normal u (dst', w') \<Rightarrow> Normal () (src, dst', w')
           | Exception e (dst', w') \<Rightarrow> Exception e (src, dst', w')
           | AssertFail \<Rightarrow> AssertFail
           | Undefined \<Rightarrow> Undefined))"

text \<open>\<^verbatim>\<open>Vector() = default\<close>\<close>

definition Vector_default :: "'a Vector" where
  "Vector_default = \<lparr>data_m = RawMemory_default, size_m = 0\<rparr>"

text \<open>
  \<^verbatim>\<open>explicit Vector(size_t size)\<close>.  When the construction of an element throws, the
  member \<^verbatim>\<open>data_\<close> is destructed and no vector comes into being.
\<close>

definition Vector_sized :: "'a setting \<Rightarrow> nat \<Rightarrow> world \<Rightarrow> ('a Vector, world) result" where
  "Vector_sized cfg sz w =
     (case RawMemory_ctor cfg sz w of
        Normal m w1 \<Rightarrow>
          (case uninitialized_value_construct_n cfg (buffer_m m) 0 sz (cells m, w1) of
             Normal u (cs, w2) \<Rightarrow> Normal \<lparr>data_m = m\<lparr>cells := cs\<rparr>, size_m = sz\<rparr> w2
           | Exception e (cs, w2) \<Rightarrow> Exception e (RawMemory_dtor (m\<lparr>cells := cs\<rparr>) w2)
           | AssertFail \<Rightarrow> AssertFail
           | Undefined \<Rightarrow> Undefined)
      | Exception e w1 \<Rightarrow> Exception e w1
      | AssertFail \<Rightarrow> AssertFail
      | Undefined \<Rightarrow> Undefined)"

text \<open>\<^verbatim>\<open>Vector(const Vector& other)\<close>\<close>

definition Vector_copy :: "'a setting \<Rightarrow> 'a Vector \<Rightarrow> world \<Rightarrow> ('a Vector, world) result" where
  "Vector_copy cfg other w =
     (case RawMemory_ctor cfg (size_m other) w of
        Normal m w1 \<Rightarrow>
          (case uninitialized_copy_n cfg (cells (data_m other)) 0 (size_m other) (buffer_m m) 0
                  (cells m, w1) of
             Normal u (cs, w2) \<Rightarrow> Normal \<lparr>data_m = m\<lparr>cells := cs\<rparr>, size_m = size_m other\<rparr> w2
           | Exception e (cs, w2) \<Rightarrow> Exception e (RawMemory_dtor (m\<lparr>cells := cs\<rparr>) w2)
           | AssertFail \<Rightarrow> AssertFail
           | Undefined \<Rightarrow> Undefined)
      | Exception e w1 \<Rightarrow> Exception e w1
      | AssertFail \<Rightarrow> AssertFail
      | Undefined \<Rightarrow> Undefined)"

text \<open>
  \<^verbatim>\<open>void Swap(Vector& other) noexcept\<close> on two distinct vectors: the new \<^verbatim>\<open>*this\<close>, the new
  \<^verbatim>\<open>other\<close> and the world.
\<close>

definition Swap :: "'a Vector \<Rightarrow> 'a Vector \<Rightarrow> world \<Rightarrow> 'a Vector \<times> 'a Vector \<times> world" where
  "Swap this other w =
     (case std_swap_RawMemory (data_m this) (data_m other) w of
        (d1, d2, w') \<Rightarrow>
          (this\<lparr>data_m := d1, size_m := size_m other\<rparr>,
           other\<lparr>data_m := d2, size_m := size_m this\<rparr>, w'))"

text \<open>\<^verbatim>\<open>Vector(Vector&& other) noexcept\<close>: the new vector, what is left of \<^verbatim>\<open>other\<close>, the world.\<close>

definition Vector_move :: "'a Vector \<Rightarrow> world \<Rightarrow> 'a Vector \<times> 'a Vector \<times> world" where
  "Vector_move other w = Swap Vector_default other w"

text \<open>\<^verbatim>\<open>~Vector()\<close>, followed by the destructor of the member \<^verbatim>\<open>data_\<close>.\<close>

definition Vector_dtor :: "'a Vector \<Rightarrow> world \<Rightarrow> (unit, world) result" where
  "Vector_dtor v w =
     (case destroy_n (buffer_m (data_m v)) 0 (size_m v) (cells (data_m v), w) of
        Normal u (cs, w') \<Rightarrow> Normal () (RawMemory_dtor ((data_m v)\<lparr>cells := cs\<rparr>) w')
      | Exception e s \<Rightarrow> Undefined
      | AssertFail \<Rightarrow> AssertFail
      | Undefined \<Rightarrow> Undefined)"

text \<open>
  The end of every growing operation (lines 265-268, 301-303, 393-395): \<^verbatim>\<open>data_.Swap(new_data)\<close>,
  \<^verbatim>\<open>std::destroy_n(new_data.GetAddress(), size_)\<close> on the old block, and the destructor of
  \<^verbatim>\<open>new_data\<close>, which now owns the old block.  \<open>src\<close> and \<open>dst\<close> are the storage of the old
  and of the new block after the transfer.
\<close>

definition adopt ::
  "'a Vector \<Rightarrow> 'a RawMemory \<Rightarrow> 'a slot list \<times> 'a slot list \<times> world
     \<Rightarrow> (unit, 'a Vector \<times> world) result" where
  "adopt v new_data s =
     (case s of (src, dst, w) \<Rightarrow>
      case RawMemory_Swap ((data_m v)\<lparr>cells := src\<rparr>) (new_data\<lparr>cells := dst\<rparr>) of
        (d, old) \<Rightarrow>
          (case destroy_n (buffer_m old) 0 (size_m v) (cells old, w) of
             Normal u (cs, w') \<Rightarrow>
               Normal () (v\<lparr>data_m := d\<rparr>, RawMemory_dtor (old\<lparr>cells := cs\<rparr>) w')
           | Exception e s' \<Rightarrow> Undefined
           | AssertFail \<Rightarrow> AssertFail
           | Undefined \<Rightarrow> Undefined))"

text \<open>
  \<^verbatim>\<open>void Reserve(size_t new_capacity)\<close>.  Lines 257-263 are the body of
  \<^verbatim>\<open>SafeCopyingOrMoving\<close>.  When the transfer throws, \<^verbatim>\<open>new_data\<close> is destructed on the way
  out.
\<close>

definition Reserve ::
  "'a setting \<Rightarrow> nat \<Rightarrow> 'a Vector \<times> world \<Rightarrow> (unit, 'a Vector \<times> world) result" where
  "Reserve cfg new_capacity s =
     (case s of (v, w) \<Rightarrow>
        if new_capacity \<le> capacity_m (data_m v) then Normal () (v, w)
        else
          (case RawMemory_ctor cfg new_capacity w of
             Normal new_data w1 \<Rightarrow>
               (case SafeCopyingOrMoving cfg 0 (size_m v) (buffer_m new_data) 0
                       (cells (data_m v), cells new_data, w1) of
                  Normal u s2 \<Rightarrow> adopt v new_data s2
                | Exception e (src, dst, w2) \<Rightarrow>
                    Exception e
                      (with_cells v src, RawMemory_dtor (new_data\<lparr>cells := dst\<rparr>) w2)
                | AssertFail \<Rightarrow> AssertFail
                | Undefined \<Rightarrow> Undefined)
           | Exception e w1 \<Rightarrow> Exception e (v, w1)
           | AssertFail \<Rightarrow> AssertFail
           | Undefined \<Rightarrow> Undefined))"

text \<open>\<^verbatim>\<open>void Resize(size_t new_size)\<close>\<close>

definition Resize ::
  "'a setting \<Rightarrow> nat \<Rightarrow> 'a Vector \<times> world \<Rightarrow> (unit, 'a Vector \<times> world) result" where
  "Resize cfg new_size s =
     (case s of (v, w) \<Rightarrow>
        if new_size < size_m v
        then
          (if plus_aborts cfg (data_m v) new_size then AssertFail
           else
             (case destroy_n (buffer_m (data_m v)) new_size (size_m v - new_size)
                     (cells (data_m v), w) of
                Normal u (cs, w1) \<Rightarrow> Normal () ((with_cells v cs)\<lparr>size_m := new_size\<rparr>, w1)
              | Exception e s1 \<Rightarrow> Undefined
              | AssertFail \<Rightarrow> AssertFail
              | Undefined \<Rightarrow> Undefined))
        else
          (case Reserve cfg new_size (v, w) of
             Normal u (v1, w1) \<Rightarrow>
               (if plus_aborts cfg (data_m v1) (size_m v1) then AssertFail
                else
                  (case uninitialized_value_construct_n cfg (buffer_m (data_m v1)) (size_m v1)
                          (new_size - size_m v1) (cells (data_m v1), w1) of
                     Normal u (cs, w2) \<Rightarrow>
                       Normal () ((with_cells v1 cs)\<lparr>size_m := new_size\<rparr>, w2)
                   | Exception e (cs, w2) \<Rightarrow> Exception e (with_cells v1 cs, w2)
                   | AssertFail \<Rightarrow> AssertFail
                   | Undefined \<Rightarrow> Undefined))
           | Exception e s1 \<Rightarrow> Exception e s1
           | AssertFail \<Rightarrow> AssertFail
           | Undefined \<Rightarrow> Undefined))"

text \<open>
  The arguments \<^verbatim>\<open>Args&&... args\<close> of an emplacing call, by the constructor of \<^verbatim>\<open>T\<close> they
  select and the value it gives: a copy of \<open>x\<close>, a move from \<open>x\<close>, or any other
  constructor call that yields \<open>x\<close>.  The arguments do not refer into the vector itself.
\<close>

datatype 'a args = CopyOf 'a | MoveOf 'a | Make 'a

definition args_kind :: "'a args \<Rightarrow> special" where
  "args_kind ar = (case ar of CopyOf x \<Rightarrow> CopyCtor | MoveOf x \<Rightarrow> MoveCtor | Make x \<Rightarrow> ArgsCtor)"

definition args_value :: "'a args \<Rightarrow> 'a" where
  "args_value ar = (case ar of CopyOf x \<Rightarrow> x | MoveOf x \<Rightarrow> x | Make x \<Rightarrow> x)"

text \<open>
  \<^verbatim>\<open>size_t new_capacity = size_ == 0 ? 1 : size_ * 2;\<close> (lines 295 and 369), the product
  in \<^verbatim>\<open>size_t\<close>.
\<close>

definition new_capacity :: "nat \<Rightarrow> nat" where
  "new_capacity sz = (if sz = 0 then 1 else (sz * 2) mod 2 ^ 64)"

text \<open>\<^verbatim>\<open>++size_; return data_[size_ - 1];\<close> (lines 309-310)\<close>

definition bump_and_back :: "'a setting \<Rightarrow> 'a Vector \<times> world \<Rightarrow> ('a, 'a Vector \<times> world) result" where
  "bump_and_back cfg s =
     (case s of (v, w) \<Rightarrow>
        (case RawMemory_at cfg (data_m v) (Suc (size_m v) - 1) of
           Normal x u \<Rightarrow> Normal x (v\<lparr>size_m := Suc (size_m v)\<rparr>, w)
         | Exception e u \<Rightarrow> Undefined
         | AssertFail \<Rightarrow> AssertFail
         | Undefined \<Rightarrow> Undefined))"

text \<open>
  \<^verbatim>\<open>T& EmplaceBack(Args&&... args)\<close>; the result is the new element.  When the transfer
  throws (line 300), nothing destructs the element constructed at line 298.
\<close>

definition EmplaceBack ::
  "'a setting \<Rightarrow> 'a args \<Rightarrow> 'a Vector \<times> world \<Rightarrow> ('a, 'a Vector \<times> world) result" where
  "EmplaceBack cfg ar s =
     (case s of (v, w) \<Rightarrow>
        if size_m v = Capacity v
        then
          (case RawMemory_ctor cfg (new_capacity (size_m v)) w of
             Normal new_data w1 \<Rightarrow>
               (if plus_aborts cfg new_data (size_m v) then AssertFail
                else
                  (case construct_at cfg (args_kind ar) (args_value ar) (buffer_m new_data)
                          (size_m v) (cells new_data, w1) of
                     Normal u (dst, w2) \<Rightarrow>
                       (case SafeCopyingOrMoving cfg 0 (size_m v) (buffer_m new_data) 0
                               (cells (data_m v), dst, w2) of
                          Normal u s3 \<Rightarrow>
                            (case adopt v new_data s3 of
                               Normal u s4 \<Rightarrow> bump_and_back cfg s4
                             | Exception e s4 \<Rightarrow> Exception e s4
                             | AssertFail \<Rightarrow> AssertFail
                             | Undefined \<Rightarrow> Undefined)
                        | Exception e (src, dst', w3) \<Rightarrow>
                            Exception e
                              (with_cells v src, RawMemory_dtor (new_data\<lparr>cells := dst'\<rparr>) w3)
                        | AssertFail \<Rightarrow> AssertFail
                        | Undefined \<Rightarrow> Undefined)
                   | Exception e (dst, w2) \<Rightarrow>
                       Exception e (v, RawMemory_dtor (new_data\<lparr>cells := dst\<rparr>) w2)
                   | AssertFail \<Rightarrow> AssertFail
                   | Undefined \<Rightarrow> Undefined))
           | Exception e w1 \<Rightarrow> Exception e (v, w1)
           | AssertFail \<Rightarrow> AssertFail
           | Undefined \<Rightarrow> Undefined)
        else
          (if plus_aborts cfg (data_m v) (size_m v) then AssertFail
           else
             (case construct_at cfg (args_kind ar) (args_value ar) (buffer_m (data_m v))
                     (size_m v) (cells (data_m v), w) of
                Normal u (cs, w1) \<Rightarrow> bump_and_back cfg (with_cells v cs, w1)
              | Exception e (cs, w1) \<Rightarrow> Exception e (with_cells v cs, w1)
              | AssertFail \<Rightarrow> AssertFail
              | Undefined \<Rightarrow> Undefined)))"

text \<open>\<^verbatim>\<open>void PushBack(const T& value)\<close> and \<^verbatim>\<open>void PushBack(T&& value)\<close>\<close>

definition PushBack_copy ::
  "'a setting \<Rightarrow> 'a \<Rightarrow> 'a Vector \<times> world \<Rightarrow> (unit, 'a Vector \<times> world) result" where
  "PushBack_copy cfg val s =
     (case EmplaceBack cfg (CopyOf val) s of
        Normal x s' \<Rightarrow> Normal () s'
      | Exception e s' \<Rightarrow> Exception e s'
      | AssertFail \<Rightarrow> AssertFail
      | Undefined \<Rightarrow> Undefined)"

definition PushBack_move ::
  "'a setting \<Rightarrow> 'a \<Rightarrow> 'a Vector \<times> world \<Rightarrow> (unit, 'a Vector \<times> world) result" where
  "PushBack_move cfg val s =
     (case EmplaceBack cfg (MoveOf val) s of
        Normal x s' \<Rightarrow> Normal () s'
      | Exception e s' \<Rightarrow> Exception e s'
      | AssertFail \<Rightarrow> AssertFail
      | Undefined \<Rightarrow> Undefined)"

text \<open>
  \<^verbatim>\<open>void PopBack() noexcept\<close>.  \<^verbatim>\<open>data_ + size_\<close> passes through the \<^verbatim>\<open>assert\<close> of
  \<^verbatim>\<open>RawMemory::operator+\<close>; the \<^verbatim>\<open>- 1\<close> that follows is plain pointer arithmetic, and with
  \<^verbatim>\<open>size_ == 0\<close> it leaves the block.
\<close>

definition PopBack ::
  "'a setting \<Rightarrow> 'a Vector \<times> world \<Rightarrow> (unit, 'a Vector \<times> world) result" where
  "PopBack cfg s =
     (case s of (v, w) \<Rightarrow>
        if plus_aborts cfg (data_m v) (size_m v) then AssertFail
        else if size_m v = 0 then Undefined
        else
          (case destroy_n (buffer_m (data_m v)) (size_m v - 1) 1 (cells (data_m v), w) of
             Normal u (cs, w1) \<Rightarrow> Normal () ((with_cells v cs)\<lparr>size_m := size_m v - 1\<rparr>, w1)
           | Exception e s1 \<Rightarrow> Undefined
           | AssertFail \<Rightarrow> AssertFail
           | Undefined \<Rightarrow> Undefined))"

text \<open>
  \<^verbatim>\<open>size_ - pos_index\<close> (line 387) in \<^verbatim>\<open>size_t\<close>: it wraps around when \<^verbatim>\<open>pos_index\<close>
  exceeds \<^verbatim>\<open>size_\<close>.
\<close>

definition size_t_minus :: "nat \<Rightarrow> nat \<Rightarrow> nat" where
  "size_t_minus a b = (if b \<le> a then a - b else a + 2 ^ 64 - b)"

text \<open>
  Lines 376-382 of \<^verbatim>\<open>Emplace\<close>: the transfer of the elements before the position, inside
  \<^verbatim>\<open>try\<close>.  The handler destroys the new element and does not rethrow: control goes on
  after the handler.
\<close>

definition Emplace_before ::
  "'a setting \<Rightarrow> nat \<Rightarrow> 'a RawMemory \<Rightarrow> 'a slot list \<times> 'a slot list \<times> world
     \<Rightarrow> (unit, 'a slot list \<times> 'a slot list \<times> world) result" where
  "Emplace_before cfg pos_index new_data s =
     (case SafeCopyingOrMoving cfg 0 pos_index (buffer_m new_data) 0 s of
        Normal u s' \<Rightarrow> Normal () s'
      | Exception e (src, dst, w) \<Rightarrow>
          (if plus_aborts cfg new_data pos_index then AssertFail
           else
             (case destroy_at (buffer_m new_data) pos_index (dst, w) of
                Normal u (dst', w') \<Rightarrow> Normal () (src, dst', w')
              | Exception e' s' \<Rightarrow> Undefined
              | AssertFail \<Rightarrow> AssertFail
              | Undefined \<Rightarrow> Undefined))
      | AssertFail \<Rightarrow> AssertFail
      | Undefined \<Rightarrow> Undefined)"

text \<open>
  Lines 385-391: the transfer of the elements from the position on, inside \<^verbatim>\<open>try\<close>.  The
  handler destroys the cells \<open>[0, pos_index)\<close> of the new block and does not rethrow.
\<close>

definition Emplace_after ::
  "'a setting \<Rightarrow> nat \<Rightarrow> nat \<Rightarrow> 'a RawMemory \<Rightarrow> 'a slot list \<times> 'a slot list \<times> world
     \<Rightarrow> (unit, 'a slot list \<times> 'a slot list \<times> world) result" where
  "Emplace_after cfg pos_index sz new_data s =
     (if plus_aborts cfg new_data pos_index then AssertFail
      else
        (case SafeCopyingOrMoving cfg pos_index (size_t_minus sz pos_index) (buffer_m new_data)
                (pos_index + 1) s of
           Normal u s' \<Rightarrow> Normal () s'
         | Exception e (src, dst, w) \<Rightarrow>
             (if plus_aborts cfg new_data pos_index then AssertFail
              else
                (case destroy_range (buffer_m new_data) 0 pos_index (dst, w) of
                   Normal u (dst', w') \<Rightarrow> Normal () (src, dst', w')
                 | Exception e' s' \<Rightarrow> Undefined
                 | AssertFail \<Rightarrow> AssertFail
                 | Undefined \<Rightarrow> Undefined))
         | AssertFail \<Rightarrow> AssertFail
         | Undefined \<Rightarrow> Undefined))"

text \<open>
  Lines 367-399: the branch \<^verbatim>\<open>size_ == Capacity()\<close> of \<^verbatim>\<open>Emplace\<close>, up to \<^verbatim>\<open>++size_\<close>.
  Neither transfer leaves by an exception, since each handler swallows it.
\<close>

definition Emplace_full ::
  "'a setting \<Rightarrow> nat \<Rightarrow> 'a args \<Rightarrow> 'a Vector \<times> world \<Rightarrow> (unit, 'a Vector \<times> world) result" where
  "Emplace_full cfg pos_index ar s =
     (case s of (v, w) \<Rightarrow>
        (case RawMemory_ctor cfg (new_capacity (size_m v)) w of
           Normal new_data w1 \<Rightarrow>
             (if plus_aborts cfg new_data pos_index then AssertFail
              else
                (case construct_at cfg (args_kind ar) (args_value ar) (buffer_m new_data)
                        pos_index (cells new_data, w1) of
                   Normal u (dst, w2) \<Rightarrow>
                     (case Emplace_before cfg pos_index new_data (cells (data_m v), dst, w2) of
                        Normal u s3 \<Rightarrow>
                          (case Emplace_after cfg pos_index (size_m v) new_data s3 of
                             Normal u s4 \<Rightarrow>
                               (case adopt v new_data s4 of
                                  Normal u (v', w') \<Rightarrow>
                                    Normal () (v'\<lparr>size_m := Suc (size_m v')\<rparr>, w')
                                | Exception e s5 \<Rightarrow> Exception e s5
                                | AssertFail \<Rightarrow> AssertFail
                                | Undefined \<Rightarrow> Undefined)
                           | Exception e s4 \<Rightarrow> Undefined
                           | AssertFail \<Rightarrow> AssertFail
                           | Undefined \<Rightarrow> Undefined)
                      | Exception e s3 \<Rightarrow> Undefined
                      | AssertFail \<Rightarrow> AssertFail
                      | Undefined \<Rightarrow> Undefined)
                 | Exception e (dst, w2) \<Rightarrow>
                     Exception e (v, RawMemory_dtor (new_data\<lparr>cells := dst\<rparr>) w2)
                 | AssertFail \<Rightarrow> AssertFail
                 | Undefined \<Rightarrow> Undefined))
         | Exception e w1 \<Rightarrow> Exception e (v, w1)
         | AssertFail \<Rightarrow> AssertFail
         | Undefined \<Rightarrow> Undefined))"

text \<open>
  \<^verbatim>\<open>T new_el(std::forward<Args>(args)...)\<close> (line 412): a local object, outside every block.
\<close>

definition construct_local :: "'a setting \<Rightarrow> 'a args \<Rightarrow> world \<Rightarrow> ('a, world) result" where
  "construct_local cfg ar w =
     (if may_throw cfg (args_kind ar) (calls w)
      then Exception (MemberThrew (args_kind ar))
             (w\<lparr>calls := Suc (calls w), trace := trace w @ [Threw (args_kind ar)]\<rparr>)
      else Normal (args_value ar) (w\<lparr>calls := Suc (calls w)\<rparr>))"

text \<open>
  Lines 400-426: the branch with spare capacity.  Line 409 assigns to the cell at \<^verbatim>\<open>end()\<close>,
  which is raw; line 424 constructs over the live object at the position.
\<close>

definition Emplace_spare ::
  "'a setting \<Rightarrow> nat \<Rightarrow> 'a args \<Rightarrow> 'a Vector \<times> world \<Rightarrow> (unit, 'a Vector \<times> world) result" where
  "Emplace_spare cfg pos_index ar s =
     (case s of (v, w) \<Rightarrow>
        if size_m v = 0
        then
          (if plus_aborts cfg (data_m v) pos_index then AssertFail
           else
             (case construct_at cfg (args_kind ar) (args_value ar) (buffer_m (data_m v))
                     pos_index (cells (data_m v), w) of
                Normal u (cs, w1) \<Rightarrow>
                  Normal () ((with_cells v cs)\<lparr>size_m := Suc (size_m v)\<rparr>, w1)
              | Exception e (cs, w1) \<Rightarrow> Exception e (with_cells v cs, w1)
              | AssertFail \<Rightarrow> AssertFail
              | Undefined \<Rightarrow> Undefined))
        else
          (if plus_aborts cfg (data_m v) (size_m v) then AssertFail
           else
             (case std_move cfg (buffer_m (data_m v)) (size_m v - 1) (size_m v) (size_m v)
                     (cells (data_m v), w) of
                Normal u (cs1, w1) \<Rightarrow>
                  (case construct_local cfg ar w1 of
                     Normal new_el w2 \<Rightarrow>
                       (case (if plus_aborts cfg (data_m v) (Suc (size_m v)) then AssertFail
                              else if nothrow_move_constructible cfg \<or> \<not> copy_constructible cfg
                              then move_backward cfg (buffer_m (data_m v)) pos_index
                                     (Suc (size_m v) - 2) (Suc (size_m v) - 1) (cs1, w2)
                              else copy_backward cfg (buffer_m (data_m v)) pos_index
                                     (Suc (size_m v) - 2) (Suc (size_m v) - 1) (cs1, w2)) of
                          Normal u (cs2, w3) \<Rightarrow>
                            (if plus_aborts cfg (data_m v) pos_index then AssertFail
                             else
                               (case construct_at cfg MoveCtor new_el (buffer_m (data_m v))
                                       pos_index (cs2, w3) of
                                  Normal u (cs3, w4) \<Rightarrow>
                                    Normal ()
                                      ((with_cells v cs3)\<lparr>size_m := Suc (size_m v)\<rparr>, w4)
                                | Exception e (cs3, w4) \<Rightarrow>
                                    Exception e
                                      ((with_cells v cs3)\<lparr>size_m := Suc (size_m v)\<rparr>, w4)
                                | AssertFail \<Rightarrow> AssertFail
                                | Undefined \<Rightarrow> Undefined))
                        | Exception e (cs2, w3) \<Rightarrow>
                            Exception e ((with_cells v cs2)\<lparr>size_m := Suc (size_m v)\<rparr>, w3)
                        | AssertFail \<Rightarrow> AssertFail
                        | Undefined \<Rightarrow> Undefined)
                   | Exception e w2 \<Rightarrow>
                       Exception e ((with_cells v cs1)\<lparr>size_m := Suc (size_m v)\<rparr>, w2)
                   | AssertFail \<Rightarrow> AssertFail
                   | Undefined \<Rightarrow> Undefined)
              | Exception e (cs1, w1) \<Rightarrow> Exception e (with_cells v cs1, w1)
              | AssertFail \<Rightarrow> AssertFail
              | Undefined \<Rightarrow> Undefined)))"

text \<open>
  \<^verbatim>\<open>iterator Emplace(const_iterator pos, Args&&... args)\<close>.  The position is given by
  \<^verbatim>\<open>pos_index = std::distance(cbegin(), pos)\<close>, and the iterator returned, \<^verbatim>\<open>data_ + pos_index\<close>,
  by its offset.
\<close>

definition Emplace ::
  "'a setting \<Rightarrow> nat \<Rightarrow> 'a args \<Rightarrow> 'a Vector \<times> world \<Rightarrow> (nat, 'a Vector \<times> world) result" where
  "Emplace cfg pos_index ar s =
     (case (if size_m (fst s) = Capacity (fst s) then Emplace_full cfg pos_index ar s
            else Emplace_spare cfg pos_index ar s) of
        Normal u (v', w') \<Rightarrow>
          (if plus_aborts cfg (data_m v') pos_index then AssertFail
           else Normal pos_index (v', w'))
      | Exception e s' \<Rightarrow> Exception e s'
      | AssertFail \<Rightarrow> AssertFail
      | Undefined \<Rightarrow> Undefined)"

text \<open>\<^verbatim>\<open>iterator Insert(const_iterator pos, const T& value)\<close> and
  \<^verbatim>\<open>iterator Insert(const_iterator pos, T&& value)\<close>\<close>

definition Insert_copy ::
  "'a setting \<Rightarrow> nat \<Rightarrow> 'a \<Rightarrow> 'a Vector \<times> world \<Rightarrow> (nat, 'a Vector \<times> world) result" where
  "Insert_copy cfg pos_index val s = Emplace cfg pos_index (CopyOf val) s"

definition Insert_move ::
  "'a setting \<Rightarrow> nat \<Rightarrow> 'a \<Rightarrow> 'a Vector \<times> world \<Rightarrow> (nat, 'a Vector \<times> world) result" where
  "Insert_move cfg pos_index val s = Emplace cfg pos_index (MoveOf val) s"

text \<open>\<^verbatim>\<open>iterator Erase(const_iterator pos)\<close>\<close>

definition Erase ::
  "'a setting \<Rightarrow> nat \<Rightarrow> 'a Vector \<times> world \<Rightarrow> (nat, 'a Vector \<times> world) result" where
  "Erase cfg pos_index s =
     (case s of (v, w) \<Rightarrow>
        if plus_aborts cfg (data_m v) (size_m v) then AssertFail
        else
          (case std_move cfg (buffer_m (data_m v)) (pos_index + 1) (size_m v) pos_index
                  (cells (data_m v), w) of
             Normal u (cs, w1) \<Rightarrow>
               (if size_m v = 0 then Undefined
                else
                  (case destroy_at (buffer_m (data_m v)) (size_m v - 1) (cs, w1) of
                     Normal u (cs', w2) \<Rightarrow>
                       Normal pos_index ((with_cells v cs')\<lparr>size_m := size_m v - 1\<rparr>, w2)
                   | Exception e s2 \<Rightarrow> Undefined
                   | AssertFail \<Rightarrow> AssertFail
                   | Undefined \<Rightarrow> Undefined))
           | Exception e (cs, w1) \<Rightarrow> Exception e (with_cells v cs, w1)
           | AssertFail \<Rightarrow> AssertFail
           | Undefined \<Rightarrow> Undefined))"

section \<open>Assignment between vectors\<close>

text \<open>
  The assignment operators take two references, which may refer to the same vector.  The
  vectors live in a store indexed by their addresses; \<open>this\<close> and \<open>rhs\<close> are addresses.
\<close>

type_synonym 'a store = "nat \<Rightarrow> 'a Vector"

text \<open>
  The loops \<^verbatim>\<open>data_[i] = rhs[i]\<close> of lines 209-211 and 217-219: \<open>m\<close> is \<^verbatim>\<open>data_\<close>, whose
  storage is in the state.
\<close>

fun assign_loop ::
  "'a setting \<Rightarrow> 'a Vector \<Rightarrow> 'a RawMemory \<Rightarrow> nat \<Rightarrow> nat \<Rightarrow> 'a slot list \<times> world
     \<Rightarrow> (unit, 'a slot list \<times> world) result" where
  "assign_loop cfg rhs m i 0 s = Normal () s"
| "assign_loop cfg rhs m i (Suc n) s =
     (case Vector_at cfg rhs i of
        Normal x u \<Rightarrow>
          (if debug cfg \<and> \<not> i < capacity_m m then AssertFail
           else
             (case assign_at cfg CopyAssign x (buffer_m m) i s of
                Normal u s' \<Rightarrow> assign_loop cfg rhs m (Suc i) n s'
              | Exception e s' \<Rightarrow> Exception e s'
              | AssertFail \<Rightarrow> AssertFail
              | Undefined \<Rightarrow> Undefined))
      | Exception e u \<Rightarrow> Undefined
      | AssertFail \<Rightarrow> AssertFail
      | Undefined \<Rightarrow> Undefined)"

text \<open>Lines 199-223 for two distinct vectors \<open>t\<close> (\<^verbatim>\<open>*this\<close>) and \<open>r\<close> (\<^verbatim>\<open>rhs\<close>).\<close>

definition copy_assign_distinct ::
  "'a setting \<Rightarrow> 'a Vector \<Rightarrow> 'a Vector \<Rightarrow> world \<Rightarrow> (unit, 'a Vector \<times> world) result" where
  "copy_assign_distinct cfg t r w =
     (if capacity_m (data_m t) < size_m r
      then
        (case Vector_copy cfg r w of
           Normal rhs_copy w1 \<Rightarrow>
             (case Swap t rhs_copy w1 of
                (t', rhs_copy', w2) \<Rightarrow>
                  (case Vector_dtor rhs_copy' w2 of
                     Normal u w3 \<Rightarrow> Normal () (t', w3)
                   | Exception e w3 \<Rightarrow> Undefined
                   | AssertFail \<Rightarrow> AssertFail
                   | Undefined \<Rightarrow> Undefined))
         | Exception e w1 \<Rightarrow> Exception e (t, w1)
         | AssertFail \<Rightarrow> AssertFail
         | Undefined \<Rightarrow> Undefined)
      else if size_m t < size_m r
      then
        (case assign_loop cfg r (data_m t) 0 (size_m t) (cells (data_m t), w) of
           Normal u (cs, w1) \<Rightarrow>
             (if plus_aborts cfg (data_m r) (size_m t) \<or> plus_aborts cfg (data_m t) (size_m t)
              then AssertFail
              else
                (case uninitialized_copy_n cfg (cells (data_m r)) (size_m t)
                        (size_m r - size_m t) (buffer_m (data_m t)) (size_m t) (cs, w1) of
                   Normal u (cs', w2) \<Rightarrow> Normal () (with_cells t cs', w2)
                 | Exception e (cs', w2) \<Rightarrow> Exception e (with_cells t cs', w2)
                 | AssertFail \<Rightarrow> AssertFail
                 | Undefined \<Rightarrow> Undefined))
         | Exception e (cs, w1) \<Rightarrow> Exception e (with_cells t cs, w1)
         | AssertFail \<Rightarrow> AssertFail
         | Undefined \<Rightarrow> Undefined)
      else
        (case assign_loop cfg r (data_m t) 0 (size_m r) (cells (data_m t), w) of
           Normal u (cs, w1) \<Rightarrow>
             (if plus_aborts cfg (data_m t) (size_m r) then AssertFail
              else
                (case destroy_n (buffer_m (data_m t)) (size_m r) (size_m t - size_m r) (cs, w1) of
                   Normal u (cs', w2) \<Rightarrow> Normal () (with_cells t cs', w2)
                 | Exception e s2 \<Rightarrow> Undefined
                 | AssertFail \<Rightarrow> AssertFail
                 | Undefined \<Rightarrow> Undefined))
         | Exception e (cs, w1) \<Rightarrow> Exception e (with_cells t cs, w1)
         | AssertFail \<Rightarrow> AssertFail
         | Undefined \<Rightarrow> Undefined))"

text \<open>\<^verbatim>\<open>Vector& operator=(const Vector& rhs)\<close>; line 224 sets \<^verbatim>\<open>size_\<close> after either branch.\<close>

definition copy_assign ::
  "'a setting \<Rightarrow> nat \<Rightarrow> nat \<Rightarrow> 'a store \<times> world \<Rightarrow> (unit, 'a store \<times> world) result" where
  "copy_assign cfg this rhs s =
     (case s of (st, w) \<Rightarrow>
        if this \<noteq> rhs
        then
          (case copy_assign_distinct cfg (st this) (st rhs) w of
             Normal u (t, w') \<Rightarrow> Normal () (st(this := t\<lparr>size_m := size_m (st rhs)\<rparr>), w')
           | Exception e (t, w') \<Rightarrow> Exception e (st(this := t), w')
           | AssertFail \<Rightarrow> AssertFail
           | Undefined \<Rightarrow> Undefined)
        else Normal () (st, w))"

text \<open>\<^verbatim>\<open>Vector& operator=(Vector&& rhs) noexcept\<close>\<close>

definition move_assign ::
  "nat \<Rightarrow> nat \<Rightarrow> 'a store \<times> world \<Rightarrow> (unit, 'a store \<times> world) result" where
  "move_assign this rhs s =
     (case s of (st, w) \<Rightarrow>
        if this \<noteq> rhs
        then
          (case Swap (st this) (st rhs) w of
             (t, r, w') \<Rightarrow> Normal () (st(this := t, rhs := r), w'))
        else Normal () (st, w))"

section \<open>Well-formed vectors\<close>

text \<open>
  A block that has all the \<open>capacity_m\<close> cells \<^verbatim>\<open>RawMemory\<close> takes it to have (the byte
  count of its allocation did not wrap around), the null pointer exactly when there are
  none.
\<close>

definition RawMemory_ok :: "'a RawMemory \<Rightarrow> bool" where
  "RawMemory_ok m =
     (length (cells m) = capacity_m m \<and> (buffer_m m = 0) = (capacity_m m = 0)
      \<and> capacity_m m \<le> PTRDIFF_MAX)"

text \<open>
  The invariant of \<^verbatim>\<open>Vector\<close>: the size is within the capacity, the cells \<open>[0, size)\<close> hold
  live objects and the cells \<open>[size, capacity)\<close> are raw.
\<close>

definition Vector_ok :: "'a Vector \<Rightarrow> bool" where
  "Vector_ok v =
     (RawMemory_ok (data_m v) \<and> size_m v \<le> capacity_m (data_m v)
      \<and> list_all is_Obj (take (size_m v) (cells (data_m v)))
      \<and> list_all is_Raw (drop (size_m v) (cells (data_m v))))"

text \<open>The elements of a vector, in order; \<open>None\<close> where a cell below the size is raw.\<close>

definition elements :: "'a Vector \<Rightarrow> 'a option list" where
  "elements v = map (read_obj (cells (data_m v))) [0..<size_m v]"

text \<open>The vector holding \<open>xs\<close> in a block of \<open>c\<close> cells at address \<open>a\<close>.\<close>

definition vector_of :: "nat \<Rightarrow> nat \<Rightarrow> 'a list \<Rightarrow> 'a Vector" where
  "vector_of a c xs =
     \<lparr>data_m = \<lparr>buffer_m = a, capacity_m = c,
                cells = map Obj xs @ replicate (c - length xs) Raw\<rparr>,
      size_m = length xs\<rparr>"

text \<open>The storage \<open>cs\<close> with the cells from \<open>first\<close> on overwritten by \<open>xs\<close>.\<close>

definition placed :: "'a slot list \<Rightarrow> nat \<Rightarrow> 'a slot list \<Rightarrow> 'a slot list" where
  "placed cs first xs = take first cs @ xs @ drop (first + length xs) cs"

text \<open>The cells \<open>[first, first + n)\<close> of a block made raw.\<close>

definition wipe :: "'a slot list \<Rightarrow> nat \<Rightarrow> nat \<Rightarrow> 'a slot list" where
  "wipe cs first n = placed cs first (replicate n Raw)"

text \<open>The objects in the cells \<open>[first, first + n)\<close> of \<open>src\<close>, as fresh cells.\<close>

definition objects :: "'a slot list \<Rightarrow> nat \<Rightarrow> nat \<Rightarrow> 'a slot list" where
  "objects src first n = map (\<lambda>i. Obj (the (read_obj src i))) [first..<first + n]"

text \<open>One call after another: the second runs in the state the first returned in.\<close>

definition and_then ::
  "('r, 's) result \<Rightarrow> ('r \<Rightarrow> 's \<Rightarrow> ('q, 's) result) \<Rightarrow> ('q, 's) result" where
  "and_then m f =
     (case m of
        Normal r s \<Rightarrow> f r s
      | Exception e s \<Rightarrow> Exception e s
      | AssertFail \<Rightarrow> AssertFail
      | Undefined \<Rightarrow> Undefined)"

section \<open>What a call has done\<close>

text \<open>
  \<open>w'\<close> is a later state of the world \<open>w\<close> in which no further block has been allocated:
  the events of \<open>w\<close> are the first events of \<open>w'\<close>.
\<close>

definition later :: "world \<Rightarrow> world \<Rightarrow> bool" where
  "later w w' = (blocks w' = blocks w \<and> take (length (trace w)) (trace w') = trace w)"

text \<open>
  Between \<open>w\<close> and \<open>w'\<close> exactly one block has been allocated, for \<open>n\<close> elements, and that
  allocation is the first event after those of \<open>w\<close>.
\<close>

definition allocated_first :: "world \<Rightarrow> nat \<Rightarrow> world \<Rightarrow> bool" where
  "allocated_first w n w' =
     (blocks w' = Suc (blocks w)
      \<and> take (Suc (length (trace w))) (trace w') = trace w @ [Allocated (Suc (blocks w)) n])"

text \<open>
  The outcome \<open>r\<close> of a call made in the world \<open>w\<close> is that of a call which began by
  allocating a block for \<open>n\<close> elements, and allocated no other: it returns or leaves by an
  exception in such a world, and when it returns the vector owns that block and has the
  capacity \<open>n\<close>.
\<close>

definition grows_to :: "world \<Rightarrow> nat \<Rightarrow> ('r, 'a Vector \<times> world) result \<Rightarrow> bool" where
  "grows_to w n r =
     (case r of
        Normal x s \<Rightarrow>
          allocated_first w n (snd s) \<and> Capacity (fst s) = n
          \<and> buffer_m (data_m (fst s)) = Suc (blocks w)
      | Exception e s \<Rightarrow> allocated_first w n (snd s)
      | AssertFail \<Rightarrow> False
      | Undefined \<Rightarrow> False)"

text \<open>The call returns.\<close>

definition returns :: "('r, 's) result \<Rightarrow> bool" where
  "returns r =
     (case r of Normal x s \<Rightarrow> True | Exception e s \<Rightarrow> False | AssertFail \<Rightarrow> False
      | Undefined \<Rightarrow> False)"

text \<open>The storage \<open>cs'\<close> is \<open>cs\<close> except in the cells \<open>[lo, hi)\<close>.\<close>

definition same_outside :: "'a slot list \<Rightarrow> 'a slot list \<Rightarrow> nat \<Rightarrow> nat \<Rightarrow> bool" where
  "same_outside cs cs' lo hi =
     (length cs' = length cs \<and> (\<forall>i<length cs. i < lo \<or> hi \<le> i \<longrightarrow> cs' ! i = cs ! i))"

text \<open>Every cell that holds an object in \<open>src\<close> holds one in \<open>src'\<close>.\<close>

definition still_live :: "'a slot list \<Rightarrow> 'a slot list \<Rightarrow> bool" where
  "still_live src src' =
     (length src' = length src \<and> (\<forall>i<length src. is_Obj (src ! i) \<longrightarrow> is_Obj (src' ! i)))"

section \<open>Two element types for concrete runs\<close>

text \<open>
  \<^verbatim>\<open>T = int\<close>, with \<^verbatim>\<open>assert\<close> active if \<open>dbg\<close>: nothing throws, and no allocation fails.
\<close>

definition int_setting :: "bool \<Rightarrow> int setting" where
  "int_setting dbg =
     \<lparr>debug = dbg, nothrow_move_constructible = True, copy_constructible = True,
      implicit_lifetime = True, default_value = 0, moved_from = (\<lambda>x. x),
      throws = (\<lambda>k n. False), sizeof_T = 4, bad_alloc = (\<lambda>b n. False)\<rparr>"

text \<open>
  A class that wraps an \<^verbatim>\<open>int\<close>, whose copy constructor throws when it is invocation
  number \<open>j\<close> and whose move constructor is not \<^verbatim>\<open>noexcept\<close>: the vector transfers its
  objects by copying.  A debug build.
\<close>

definition throwing_copy :: "nat \<Rightarrow> int setting" where
  "throwing_copy j =
     \<lparr>debug = True, nothrow_move_constructible = False, copy_constructible = True,
      implicit_lifetime = False, default_value = 0, moved_from = (\<lambda>x. x),
      throws = (\<lambda>k n. k = CopyCtor \<and> n = j), sizeof_T = 4, bad_alloc = (\<lambda>b n. False)\<rparr>"

text \<open>A world in which \<open>b\<close> blocks have been handed out and nothing else has happened.\<close>

definition fresh_world :: "nat \<Rightarrow> world" where
  "fresh_world b = \<lparr>blocks = b, calls = 0, trace = []\<rparr>"

text \<open>
  A store with two vectors: \<open>[7]\<close> in a block of one cell at address \<open>1\<close>, and \<open>[1, 2]\<close>
  in a block of two cells at address \<open>2\<close>.
\<close>

definition two_vectors :: "int store" where
  "two_vectors =
     (\<lambda>a. if a = 1 then vector_of 1 1 [7] else if a = 2 then vector_of 2 2 [1, 2]
          else Vector_default)"

section \<open>Running the model on concrete inputs\<close>

text \<open>The loops recurse on \<open>Suc\<close>; these equations unfold them at a numeral.\<close>

lemma replicate_numeral: "replicate (numeral k) x = x # replicate (pred_numeral k) x"
  by (simp add: numeral_eq_Suc)

lemma list_update_numeral: "(x # xs)[numeral k := y] = x # xs[pred_numeral k := y]"
  by (simp add: numeral_eq_Suc)

lemma upt_numeral: "[i..<numeral k] = (if i < numeral k then i # [Suc i..<numeral k] else [])"
  by (rule upt_rec)

lemma destroy_n_numeral:
  "destroy_n a first (numeral k) s =
     (case destroy_at a first s of
        Normal u s' \<Rightarrow> destroy_n a (Suc first) (pred_numeral k) s'
      | Exception e s' \<Rightarrow> Exception e s'
      | AssertFail \<Rightarrow> AssertFail
      | Undefined \<Rightarrow> Undefined)"
  by (simp only: numeral_eq_Suc destroy_n.simps)

lemma copy_loop_numeral:
  "copy_loop cfg src first (numeral k) a s =
     (case s of (cur, dst, w) \<Rightarrow>
      case read_obj src first of
        None \<Rightarrow> Undefined
      | Some x \<Rightarrow>
          (case construct_at cfg CopyCtor x a cur (dst, w) of
             Normal u s' \<Rightarrow> copy_loop cfg src (Suc first) (pred_numeral k) a (Suc cur, s')
           | Exception e s' \<Rightarrow> Exception e (cur, s')
           | AssertFail \<Rightarrow> AssertFail
           | Undefined \<Rightarrow> Undefined))"
  by (simp only: numeral_eq_Suc copy_loop.simps)

lemma move_loop_numeral:
  "move_loop cfg first (numeral k) a s =
     (case s of (cur, src, dst, w) \<Rightarrow>
      case read_obj src first of
        None \<Rightarrow> Undefined
      | Some x \<Rightarrow>
          (case construct_at cfg MoveCtor x a cur (dst, w) of
             Normal u (dst', w') \<Rightarrow>
               move_loop cfg (Suc first) (pred_numeral k) a
                 (Suc cur, src[first := Obj (moved_from cfg x)], dst', w')
           | Exception e (dst', w') \<Rightarrow> Exception e (cur, src, dst', w')
           | AssertFail \<Rightarrow> AssertFail
           | Undefined \<Rightarrow> Undefined))"
  by (simp only: numeral_eq_Suc move_loop.simps)

lemma value_loop_numeral:
  "value_loop cfg (numeral k) a s =
     (case s of (cur, dst, w) \<Rightarrow>
      case construct_at cfg DefaultCtor (default_value cfg) a cur (dst, w) of
        Normal u s' \<Rightarrow> value_loop cfg (pred_numeral k) a (Suc cur, s')
      | Exception e s' \<Rightarrow> Exception e (cur, s')
      | AssertFail \<Rightarrow> AssertFail
      | Undefined \<Rightarrow> Undefined)"
  by (simp only: numeral_eq_Suc value_loop.simps)

lemma move_forward_loop_numeral:
  "move_forward_loop cfg a first (numeral k) d_first s =
     (case s of (cs, w) \<Rightarrow>
      case read_obj cs first of
        None \<Rightarrow> Undefined
      | Some x \<Rightarrow>
          (case assign_at cfg MoveAssign x a d_first (cs, w) of
             Normal u (cs', w') \<Rightarrow>
               move_forward_loop cfg a (Suc first) (pred_numeral k) (Suc d_first)
                 (cs'[first := Obj (moved_from cfg x)], w')
           | Exception e s' \<Rightarrow> Exception e s'
           | AssertFail \<Rightarrow> AssertFail
           | Undefined \<Rightarrow> Undefined))"
  by (simp only: numeral_eq_Suc move_forward_loop.simps)

lemma backward_loop_numeral:
  "backward_loop cfg k a (numeral j) lst d_last s =
     (case s of (cs, w) \<Rightarrow>
      if lst = 0 \<or> d_last = 0 then Undefined
      else
        (case read_obj cs (lst - 1) of
           None \<Rightarrow> Undefined
         | Some x \<Rightarrow>
             (case assign_at cfg k x a (d_last - 1) (cs, w) of
                Normal u (cs', w') \<Rightarrow>
                  backward_loop cfg k a (pred_numeral j) (lst - 1) (d_last - 1)
                    (if k = MoveAssign then cs'[lst - 1 := Obj (moved_from cfg x)] else cs', w')
              | Exception e s' \<Rightarrow> Exception e s'
              | AssertFail \<Rightarrow> AssertFail
              | Undefined \<Rightarrow> Undefined)))"
  by (simp only: numeral_eq_Suc backward_loop.simps)

lemma assign_loop_numeral:
  "assign_loop cfg rhs m i (numeral k) s =
     (case Vector_at cfg rhs i of
        Normal x u \<Rightarrow>
          (if debug cfg \<and> \<not> i < capacity_m m then AssertFail
           else
             (case assign_at cfg CopyAssign x (buffer_m m) i s of
                Normal u s' \<Rightarrow> assign_loop cfg rhs m (Suc i) (pred_numeral k) s'
              | Exception e s' \<Rightarrow> Exception e s'
              | AssertFail \<Rightarrow> AssertFail
              | Undefined \<Rightarrow> Undefined))
      | Exception e u \<Rightarrow> Undefined
      | AssertFail \<Rightarrow> AssertFail
      | Undefined \<Rightarrow> Undefined)"
  by (simp only: numeral_eq_Suc assign_loop.simps)

lemmas unroll = upt_numeral replicate_numeral list_update_numeral destroy_n_numeral copy_loop_numeral
  move_loop_numeral value_loop_numeral move_forward_loop_numeral backward_loop_numeral
  assign_loop_numeral


lemmas run_defs = new_capacity_def Emplace_def Emplace_full_def Emplace_before_def Emplace_after_def
  Emplace_spare_def Insert_copy_def Insert_move_def Erase_def EmplaceBack_def bump_and_back_def
  adopt_def SafeCopyingOrMoving_def uninitialized_copy_n_def uninitialized_move_n_def
  uninitialized_value_construct_n_def destroy_range_def destroy_at_def construct_at_def
  assign_at_def read_obj_def may_throw_def RawMemory_ctor_def Allocate_def refuses_def
  block_bytes_def sizeof_def Deallocate_def
  RawMemory_dtor_def RawMemory_Swap_def RawMemory_at_def plus_aborts_def Capacity_def
  with_cells_def args_kind_def args_value_def size_t_minus_def std_move_def move_backward_def
  copy_backward_def construct_local_def is_Obj_def is_Raw_def PTRDIFF_MAX_def
  vector_of_def fresh_world_def throwing_copy_def int_setting_def Reserve_def Resize_def
  PopBack_def Vector_at_def Vector_default_def RawMemory_default_def Vector_ok_def
  RawMemory_ok_def elements_def

section \<open>Reserve within the capacity\<close>

text \<open>
  C5.  For every vector and every \<open>k\<close> not above its capacity, \<^verbatim>\<open>Reserve(k)\<close> returns at
  once: the vector (its block, its address, capacity, size and every cell) and the world
  (no allocation, no constructor, no destructor) are as before.
\<close>

theorem Reserve_within_capacity:
  "k \<le> Capacity v \<Longrightarrow> Reserve cfg k (v, w) = Normal () (v, w)"
  by (simp add: Reserve_def Capacity_def)

theorem Reserve_within_capacity_witness:
  "Reserve (int_setting True) 3 (vector_of 1 4 [10, 20], fresh_world 1) =
     Normal () (vector_of 1 4 [10, 20], fresh_world 1)"
proof -
  have "(3::nat) \<le> Capacity (vector_of 1 4 [10, 20::int])"
    by (simp add: Capacity_def vector_of_def)
  then show ?thesis
    by (rule Reserve_within_capacity)
qed

section \<open>Self-assignment\<close>

text \<open>
  C10.  Assigning a vector to itself, by the copy assignment or by the move assignment,
  returns with the store of vectors and the world as they were: nothing is allocated,
  constructed or destroyed, and no size, capacity or cell changes.
\<close>

theorem self_assignment_noop:
  "copy_assign cfg a a (st, w) = Normal () (st, w)
   \<and> move_assign a a (st, w) = Normal () (st, w)"
  by (simp add: copy_assign_def move_assign_def)

section \<open>Emplace at capacity when a transfer throws\<close>

text \<open>
  C2.  The claim: when \<^verbatim>\<open>Emplace\<close> on a full vector fails in the transfer of the old
  elements, the failure reaches the caller and the vector is unchanged.  The code at this
  input: the vector \<open>[10, 20]\<close> is full, the element type copies on transfer, and the copy of
  the element \<open>10\<close> (the invocation after the construction of the new element \<open>99\<close>)
  throws.  The handler of line 380 destroys the new element and does not rethrow, so
  \<^verbatim>\<open>Emplace\<close> returns normally, with size \<open>3\<close> and the cells \<open>0\<close> and \<open>1\<close> raw.
\<close>

theorem Emplace_swallows_transfer_failure:
  "Emplace (throwing_copy 1) 1 (Make 99) (vector_of 1 2 [10, 20], fresh_world 1) =
     Normal 1
       (\<lparr>data_m = \<lparr>buffer_m = 2, capacity_m = 4, cells = [Raw, Raw, Obj 20, Raw]\<rparr>,
         size_m = 3\<rparr>,
        \<lparr>blocks = 2, calls = 3,
         trace = [Allocated 2 4, Constructed ArgsCtor 2 1, Threw CopyCtor, Destroyed 2 1,
                  Constructed CopyCtor 2 2, Destroyed 1 0, Destroyed 1 1, Deallocated 1]\<rparr>)"
  by (simp add: run_defs unroll)

section \<open>Insert followed by Erase\<close>

text \<open>
  C7.  The claim: \<^verbatim>\<open>Insert(pos, v)\<close> followed by \<^verbatim>\<open>Erase(pos)\<close> restores the sequence.  The
  code at this input: on the full vector \<open>[10, 20]\<close>, \<^verbatim>\<open>Insert\<close> at position \<open>1\<close> returns
  normally although the copy of the element \<open>10\<close> threw; the elements \<open>10\<close> and \<open>99\<close> are
  gone, and \<^verbatim>\<open>Erase\<close> at position \<open>1\<close> then assigns to a raw cell.
\<close>

theorem Insert_then_Erase_after_swallowed_failure:
  "elements (vector_of 1 2 [10, 20::int]) = [Some 10, Some 20]
   \<and> Insert_copy (throwing_copy 1) 1 99 (vector_of 1 2 [10, 20], fresh_world 1) =
       Normal 1
         (\<lparr>data_m = \<lparr>buffer_m = 2, capacity_m = 4, cells = [Raw, Raw, Obj 20, Raw]\<rparr>,
           size_m = 3\<rparr>,
          \<lparr>blocks = 2, calls = 3,
           trace = [Allocated 2 4, Constructed CopyCtor 2 1, Threw CopyCtor, Destroyed 2 1,
                    Constructed CopyCtor 2 2, Destroyed 1 0, Destroyed 1 1, Deallocated 1]\<rparr>)
   \<and> Erase (throwing_copy 1) 1
         (\<lparr>data_m = \<lparr>buffer_m = 2, capacity_m = 4, cells = [Raw, Raw, Obj 20, Raw]\<rparr>,
           size_m = 3\<rparr>,
          \<lparr>blocks = 2, calls = 3,
           trace = [Allocated 2 4, Constructed CopyCtor 2 1, Threw CopyCtor, Destroyed 2 1,
                    Constructed CopyCtor 2 2, Destroyed 1 0, Destroyed 1 1, Deallocated 1]\<rparr>) =
       Undefined"
  by (simp add: run_defs unroll)

section \<open>The invariant of the vector\<close>

text \<open>
  C8.  The claim: every public operation keeps the cells \<open>[0, size)\<close> live and the cells
  \<open>[size, capacity)\<close> raw.  The code at this input: the vector \<open>[10]\<close> is full and
  well-formed, \<^verbatim>\<open>Emplace\<close> at position \<open>0\<close> constructs \<open>99\<close>, the copy of \<open>10\<close> into the new
  block throws, the handler of line 389 swallows the exception, and \<^verbatim>\<open>Emplace\<close> returns a
  vector of size \<open>2\<close> whose cell \<open>1\<close> is raw.
\<close>

theorem Emplace_breaks_invariant:
  "Vector_ok (vector_of 1 1 [10::int])
   \<and> Emplace (throwing_copy 1) 0 (Make 99) (vector_of 1 1 [10], fresh_world 1) =
       Normal 0
         (\<lparr>data_m = \<lparr>buffer_m = 2, capacity_m = 2, cells = [Obj 99, Raw]\<rparr>, size_m = 2\<rparr>,
          \<lparr>blocks = 2, calls = 2,
           trace = [Allocated 2 2, Constructed ArgsCtor 2 0, Threw CopyCtor, Destroyed 1 0,
                    Deallocated 1]\<rparr>)
   \<and> \<not> Vector_ok
         \<lparr>data_m = \<lparr>buffer_m = 2, capacity_m = 2, cells = [Obj (99::int), Raw]\<rparr>, size_m = 2\<rparr>"
  by (simp add: run_defs unroll)

section \<open>Precondition violations\<close>

lemma read_obj_beyond_size:
  "Vector_ok v \<Longrightarrow> size_m v \<le> i \<Longrightarrow> read_obj (cells (data_m v)) i = None"
  by (auto simp: Vector_ok_def RawMemory_ok_def read_obj_def list_all_length is_Raw_def
           split: slot.splits dest!: spec[of _ "i - size_m v"])

text \<open>
  C9, as the claim states it, fails: in a debug build \<^verbatim>\<open>PopBack\<close> on the empty vector does
  not end in an assertion failure.
\<close>

theorem PopBack_empty_no_assertion:
  "Vector_ok (Vector_default :: int Vector) \<and> Size (Vector_default :: int Vector) = 0
   \<and> debug (int_setting True)
   \<and> PopBack (int_setting True) (Vector_default, fresh_world 0) \<noteq> AssertFail"
  by (simp add: run_defs unroll Size_def)

text \<open>
  C9, amended.  Indexed access to a well-formed vector with an index not below the size
  ends in an assertion failure in a debug build and is undefined in a release build.
  \<^verbatim>\<open>PopBack\<close> on a vector of size \<open>0\<close> has no assertion that fails: it is undefined in
  every build.
\<close>

theorem precondition_violations:
  "(Vector_ok v \<and> size_m v \<le> index \<longrightarrow>
      Vector_at cfg v index = (if debug cfg then AssertFail else Undefined))
   \<and> (size_m v = 0 \<longrightarrow> PopBack cfg (v, w) = Undefined)"
  by (auto simp: Vector_at_def RawMemory_at_def read_obj_beyond_size PopBack_def plus_aborts_def)

theorem precondition_violations_witness:
  "Vector_at (int_setting True) (vector_of 1 4 [10, 20]) 2 = AssertFail
   \<and> Vector_at (int_setting False) (vector_of 1 4 [10, 20]) 2 = Undefined
   \<and> PopBack (int_setting True) (Vector_default, fresh_world 0) = Undefined"
proof -
  have ok: "Vector_ok (vector_of 1 4 [10, 20::int])"
    by (simp add: run_defs unroll)
  have le: "size_m (vector_of 1 4 [10, 20::int]) \<le> 2"
    by (simp add: vector_of_def)
  have emp: "size_m (Vector_default :: int Vector) = 0"
    by (simp add: Vector_default_def)
  from precondition_violations [of "vector_of 1 4 [10, 20]" 2 "int_setting True"] ok le
  have a: "Vector_at (int_setting True) (vector_of 1 4 [10, 20]) 2 = AssertFail"
    by (simp add: int_setting_def)
  from precondition_violations [of "vector_of 1 4 [10, 20]" 2 "int_setting False"] ok le
  have b: "Vector_at (int_setting False) (vector_of 1 4 [10, 20]) 2 = Undefined"
    by (simp add: int_setting_def)
  from precondition_violations [of Vector_default 0 "int_setting True" "fresh_world 0"] emp
  have c: "PopBack (int_setting True) (Vector_default, fresh_world 0) = Undefined"
    by blast
  from a b c show ?thesis by blast
qed

section \<open>Move construction and move assignment\<close>

lemma std_swap_RawMemory_ok:
  "RawMemory_ok a \<Longrightarrow> RawMemory_ok b \<Longrightarrow> std_swap_RawMemory a b w = (b, a, w)"
  by (auto simp: std_swap_RawMemory_def RawMemory_move_ctor_def RawMemory_move_assign_def
        RawMemory_Swap_def RawMemory_default_def RawMemory_dtor_def Deallocate_def RawMemory_ok_def)

lemma Swap_ok:
  "Vector_ok a \<Longrightarrow> Vector_ok b \<Longrightarrow> Swap a b w = (b, a, w)"
  by (simp add: Swap_def std_swap_RawMemory_ok Vector_ok_def)

lemma Vector_default_ok: "Vector_ok Vector_default"
  by (simp add: Vector_ok_def RawMemory_ok_def Vector_default_def RawMemory_default_def)

text \<open>
  C3, as the claim states it, fails for the move assignment: assigned to the vector \<open>[7]\<close>,
  the source \<open>[1, 2]\<close> is left with size \<open>1\<close> and capacity \<open>1\<close>.
\<close>

theorem move_assign_source_not_empty:
  "Vector_ok (two_vectors 1) \<and> Vector_ok (two_vectors 2)
   \<and> move_assign 1 2 (two_vectors, fresh_world 2) =
       Normal () (two_vectors(1 := vector_of 2 2 [1, 2], 2 := vector_of 1 1 [7]), fresh_world 2)
   \<and> Size (vector_of 1 1 [7::int]) = 1 \<and> Capacity (vector_of 1 1 [7::int]) = 1"
  by (simp add: run_defs unroll two_vectors_def move_assign_def Swap_def std_swap_RawMemory_def
        RawMemory_move_ctor_def RawMemory_move_assign_def Size_def)

text \<open>
  C3, amended.  Move construction from a well-formed vector gives the new vector the
  source's block, size and elements and leaves the source as a default-constructed vector
  (size \<open>0\<close>, capacity \<open>0\<close>).  Move assignment between two distinct well-formed vectors
  exchanges them: the destination holds the source's former block, size and elements, and
  the source holds the destination's former ones.  Neither changes the world.
\<close>

theorem move_exchanges:
  "(Vector_ok other \<longrightarrow> Vector_move other w = (other, Vector_default, w))
   \<and> (this \<noteq> rhs \<and> Vector_ok (st this) \<and> Vector_ok (st rhs) \<longrightarrow>
        move_assign this rhs (st, w) = Normal () (st(this := st rhs, rhs := st this), w))"
  by (simp add: Vector_move_def move_assign_def Swap_ok Vector_default_ok)

theorem move_exchanges_witness:
  "Vector_move (vector_of 1 4 [10, 20::int]) (fresh_world 1) =
     (vector_of 1 4 [10, 20], Vector_default, fresh_world 1)
   \<and> Size (Vector_default :: int Vector) = 0 \<and> Capacity (Vector_default :: int Vector) = 0
   \<and> move_assign 1 2 (two_vectors, fresh_world 2) =
       Normal () (two_vectors(1 := two_vectors 2, 2 := two_vectors 1), fresh_world 2)"
proof -
  have ok: "Vector_ok (vector_of 1 4 [10, 20::int])"
    by (simp add: run_defs unroll)
  have ok1: "Vector_ok (two_vectors 1)" and ok2: "Vector_ok (two_vectors 2)"
    by (simp_all add: two_vectors_def run_defs unroll)
  have ne: "(1::nat) \<noteq> 2"
    by simp
  from move_exchanges [of "vector_of 1 4 [10, 20]" "fresh_world 1"] ok
  have a: "Vector_move (vector_of 1 4 [10, 20::int]) (fresh_world 1) =
             (vector_of 1 4 [10, 20], Vector_default, fresh_world 1)"
    by blast
  from move_exchanges [where this = 1 and rhs = 2 and st = two_vectors and w = "fresh_world 2"]
    ne ok1 ok2
  have b: "move_assign 1 2 (two_vectors, fresh_world 2) =
             Normal () (two_vectors(1 := two_vectors 2, 2 := two_vectors 1), fresh_world 2)"
    by blast
  have c: "Size (Vector_default :: int Vector) = 0 \<and> Capacity (Vector_default :: int Vector) = 0"
    by (simp add: Size_def Capacity_def Vector_default_def RawMemory_default_def)
  from a b c show ?thesis by blast
qed

section \<open>Allocation and the steps of a growing call\<close>

lemma sizeof_pos [simp]: "0 < sizeof cfg"
  by (simp add: sizeof_def)

lemma block_bytes_le: "block_bytes cfg n \<le> n * sizeof cfg"
  by (simp add: block_bytes_def)

lemma block_cells_le: "block_bytes cfg n div sizeof cfg \<le> n"
proof -
  have "block_bytes cfg n div sizeof cfg \<le> n * sizeof cfg div sizeof cfg"
    by (rule div_le_mono) (rule block_bytes_le)
  then show ?thesis
    by simp
qed

lemma block_bytes_nowrap: "n * sizeof cfg < 2 ^ 64 \<Longrightarrow> block_bytes cfg n = n * sizeof cfg"
  by (simp add: block_bytes_def)

lemma block_bytes_fit: "n * sizeof cfg \<le> PTRDIFF_MAX \<Longrightarrow> block_bytes cfg n = n * sizeof cfg"
  by (rule block_bytes_nowrap) (simp add: PTRDIFF_MAX_def)

lemma block_cells_full:
  assumes "n \<le> block_bytes cfg n div sizeof cfg"
  shows "block_bytes cfg n = n * sizeof cfg"
proof -
  from assms have "n * sizeof cfg \<le> block_bytes cfg n div sizeof cfg * sizeof cfg"
    by (rule mult_le_mono1)
  also have "\<dots> \<le> block_bytes cfg n"
    by simp
  finally show ?thesis
    using block_bytes_le [of cfg n] by simp
qed

lemma RawMemory_ctor_Normal:
  "RawMemory_ctor cfg n w = Normal m w1 \<Longrightarrow>
     capacity_m m = n \<and> buffer_m m = (if n = 0 then 0 else Suc (blocks w))
     \<and> cells m = replicate (block_bytes cfg n div sizeof cfg) Raw
     \<and> block_bytes cfg n \<le> PTRDIFF_MAX
     \<and> w1 = (if n = 0 then w else w\<lparr>blocks := Suc (blocks w), trace := trace w @ [Allocated (Suc (blocks w)) n]\<rparr>)"
  by (auto simp: RawMemory_ctor_def Allocate_def refuses_def block_bytes_def split: if_splits)

lemma RawMemory_ctor_nowrap:
  "n \<noteq> 0 \<Longrightarrow> n * sizeof cfg < 2 ^ 64 \<Longrightarrow>
     RawMemory_ctor cfg n w =
       (if refuses cfg w n then Exception BadAlloc w
        else Normal \<lparr>buffer_m = Suc (blocks w), capacity_m = n, cells = replicate n Raw\<rparr>
               (w\<lparr>blocks := Suc (blocks w), trace := trace w @ [Allocated (Suc (blocks w)) n]\<rparr>))"
  by (simp add: RawMemory_ctor_def Allocate_def block_bytes_nowrap)

lemma RawMemory_ctor_granted:
  assumes "n \<noteq> 0" and "n * sizeof cfg \<le> PTRDIFF_MAX"
    and "\<not> bad_alloc cfg (blocks w) (n * sizeof cfg)"
  shows "RawMemory_ctor cfg n w =
           Normal \<lparr>buffer_m = Suc (blocks w), capacity_m = n, cells = replicate n Raw\<rparr>
             (w\<lparr>blocks := Suc (blocks w), trace := trace w @ [Allocated (Suc (blocks w)) n]\<rparr>)"
proof -
  from assms(2) have "n * sizeof cfg < 2 ^ 64"
    by (simp add: PTRDIFF_MAX_def)
  moreover from assms(2,3) have "\<not> refuses cfg w n"
    by (simp add: refuses_def block_bytes_fit)
  ultimately show ?thesis
    using assms(1) by (simp add: RawMemory_ctor_nowrap)
qed

lemma adopt_Normal:
  "adopt v nd (src, dst, w) = Normal u (v', w') \<Longrightarrow>
     data_m v' = nd\<lparr>cells := dst\<rparr> \<and> size_m v' = size_m v"
  by (auto simp: adopt_def RawMemory_Swap_def split: result.splits prod.splits)

lemma bump_and_back_Normal:
  "bump_and_back cfg (v, w) = Normal x (v', w') \<Longrightarrow> data_m v' = data_m v \<and> size_m v' = Suc (size_m v) \<and> w' = w"
  by (auto simp: bump_and_back_def split: result.splits)

lemma construct_at_Normal:
  "construct_at cfg k x a i (cs, w) = Normal u (cs', w') \<Longrightarrow>
     i < length cs \<and> cs' = cs[i := Obj x] \<and> \<not> may_throw cfg k (calls w)
     \<and> w' = w\<lparr>calls := Suc (calls w), trace := trace w @ [Constructed k a i]\<rparr>"
  by (auto simp: construct_at_def split: if_splits)

lemma grown_capacity:
  "Vector_ok v \<Longrightarrow> size_m v = Capacity v \<Longrightarrow>
     (new_capacity (size_m v)) = max 1 (Capacity v * 2)"
  by (auto simp: Vector_ok_def RawMemory_ok_def Capacity_def PTRDIFF_MAX_def new_capacity_def)

section \<open>Reserve when a copy throws\<close>

lemma placed_Nil [simp]: "placed cs first [] = cs"
  by (simp add: placed_def)

lemma length_placed [simp]:
  "first + length xs \<le> length cs \<Longrightarrow> length (placed cs first xs) = length cs"
  by (simp add: placed_def)

lemma placed_update:
  "first < length cs \<Longrightarrow> placed (cs[first := y]) (Suc first) ys = placed cs first (y # ys)"
  by (simp add: placed_def take_Suc_conv_app_nth)

lemma objects_Suc: "objects src first (Suc n) = Obj (the (read_obj src first)) # objects src (Suc first) n"
  by (simp add: objects_def upt_conv_Cons del: upt_Suc)

lemma objects_0 [simp]: "objects src first 0 = []"
  by (simp add: objects_def)

lemma length_objects [simp]: "length (objects src first n) = n"
  by (simp add: objects_def)


lemma upt_first: "[first..<Suc (first + n)] = first # [Suc first..<Suc (first + n)]"
  by (rule upt_conv_Cons) simp

lemma destroy_n_wipe:
  "first + n \<le> length cs \<Longrightarrow> list_all is_Obj (take n (drop first cs)) \<Longrightarrow>
     destroy_n a first n (cs, w) =
       Normal () (wipe cs first n, w\<lparr>trace := trace w @ map (Destroyed a) [first..<first + n]\<rparr>)"
proof (induction n arbitrary: first cs w)
  case 0
  then show ?case by (simp add: wipe_def)
next
  case (Suc n)
  from Suc.prems have lt: "first < length cs"
    by simp
  from lt have split: "drop first cs = cs ! first # drop (Suc first) cs"
    by (simp add: Cons_nth_drop_Suc)
  from Suc.prems(2) have here: "is_Obj (cs ! first)"
    and rest: "list_all is_Obj (take n (drop (Suc first) (cs[first := Raw])))"
    by (simp_all add: split)
  from Suc.prems have len: "Suc first + n \<le> length (cs[first := Raw])"
    by simp
  have "wipe (cs[first := Raw]) (Suc first) n = wipe cs first (Suc n)"
    using lt by (simp add: wipe_def placed_update)
  with Suc.IH [OF len rest] lt here show ?case
    by (simp add: destroy_at_def upt_first del: upt_Suc)
qed

lemma copy_loop_throw:
  "j < n \<Longrightarrow> \<forall>i\<le>j. read_obj src (first + i) \<noteq> None \<Longrightarrow> cur + j < length dst \<Longrightarrow>
   \<forall>i<j. \<not> may_throw cfg CopyCtor (calls w + i) \<Longrightarrow> may_throw cfg CopyCtor (calls w + j) \<Longrightarrow>
   copy_loop cfg src first n a (cur, dst, w) =
     Exception (MemberThrew CopyCtor)
       (cur + j, placed dst cur (objects src first j),
        w\<lparr>calls := Suc (calls w + j),
          trace := trace w @ map (Constructed CopyCtor a) [cur..<cur + j] @ [Threw CopyCtor]\<rparr>)"
proof (induction j arbitrary: n first cur dst w)
  case 0
  then obtain m where n: "n = Suc m"
    by (cases n) auto
  from 0 obtain x where "read_obj src first = Some x"
    by auto
  with 0 show ?case
    by (simp add: n construct_at_def)
next
  case (Suc j)
  then obtain m where n: "n = Suc m"
    by (cases n) auto
  from Suc.prems(2) obtain x where x: "read_obj src first = Some x"
    by (auto dest: spec [of _ 0])
  let ?w = "w\<lparr>calls := Suc (calls w), trace := trace w @ [Constructed CopyCtor a cur]\<rparr>"
  from Suc.prems(4) have ok0: "\<not> may_throw cfg CopyCtor (calls w)"
    by (auto dest: spec [of _ 0])
  have reads: "\<forall>i\<le>j. read_obj src (Suc first + i) \<noteq> None"
  proof (intro allI impI)
    fix i assume "i \<le> j"
    with Suc.prems(2) have "read_obj src (first + Suc i) \<noteq> None"
      by (auto dest: spec [of _ "Suc i"])
    then show "read_obj src (Suc first + i) \<noteq> None"
      by simp
  qed
  have quiet: "\<forall>i<j. \<not> may_throw cfg CopyCtor (calls ?w + i)"
  proof (intro allI impI)
    fix i assume "i < j"
    with Suc.prems(4) have "\<not> may_throw cfg CopyCtor (calls w + Suc i)"
      by (auto dest: spec [of _ "Suc i"])
    then show "\<not> may_throw cfg CopyCtor (calls ?w + i)"
      by simp
  qed
  from Suc.prems(5) have loud: "may_throw cfg CopyCtor (calls ?w + j)"
    by simp
  from Suc.prems(1) n have jm: "j < m"
    by simp
  from Suc.prems(3) have room: "Suc cur + j < length (dst[cur := Obj x])" and here: "cur < length dst"
    by simp_all
  have step: "copy_loop cfg src first n a (cur, dst, w) =
      copy_loop cfg src (Suc first) m a (Suc cur, dst[cur := Obj x], ?w)"
    using x ok0 here by (simp add: n construct_at_def)
  show ?case
    unfolding step Suc.IH [OF jm reads room quiet loud]
    using here x by (simp add: placed_update objects_Suc upt_first del: upt_Suc)
qed

lemma is_Obj_objects [simp]: "list_all is_Obj (objects src first n)"
  by (simp add: objects_def list_all_iff is_Obj_def)

lemma take_placed_0 [simp]: "take (length xs) (placed cs 0 xs) = xs"
  by (simp add: placed_def)

lemma with_cells_same [simp]: "with_cells v (cells (data_m v)) = v"
  by (simp add: with_cells_def)

lemma Vector_ok_reads:
  assumes "Vector_ok v" and "i < size_m v"
  shows "read_obj (cells (data_m v)) i \<noteq> None"
proof -
  from assms have "i < length (cells (data_m v))"
    by (simp add: Vector_ok_def RawMemory_ok_def)
  moreover from assms have "is_Obj (cells (data_m v) ! i)"
    by (simp add: Vector_ok_def RawMemory_ok_def list_all_length)
  ultimately show ?thesis
    by (simp add: read_obj_def is_Obj_def split: slot.splits)
qed

text \<open>
  C1.  \<^verbatim>\<open>Reserve(n)\<close> on a well-formed vector, with \<open>n\<close> above the capacity and the new
  block allocated (its \<open>n * sizeof (T)\<close> bytes are within \<open>PTRDIFF_MAX\<close>, so that the
  product of line 87 does not wrap around, and \<^verbatim>\<open>operator new\<close> grants them), for an
  element type that is transferred by copying (it is copy-constructible and its move
  constructor may throw): when the copy of element \<open>j\<close> is the first to throw, the \<open>j\<close>
  objects already constructed in the new block are destroyed and the block is
  deallocated, the call leaves by that exception, and the vector (its block, size,
  capacity and every cell) is as it was.
\<close>

theorem Reserve_strong_guarantee:
  assumes ok: "Vector_ok v"
    and grow: "Capacity v < n"
    and alloc: "n * sizeof cfg \<le> PTRDIFF_MAX" "\<not> bad_alloc cfg (blocks w) (n * sizeof cfg)"
    and copies: "copy_constructible cfg" "\<not> nothrow_move_constructible cfg"
    and j: "j < Size v"
    and quiet: "\<forall>i<j. \<not> throws cfg CopyCtor (calls w + i)"
    and loud: "throws cfg CopyCtor (calls w + j)"
  shows "Reserve cfg n (v, w) =
     Exception (MemberThrew CopyCtor)
       (v, w\<lparr>blocks := Suc (blocks w), calls := Suc (calls w + j),
              trace := trace w @ [Allocated (Suc (blocks w)) n]
                 @ map (Constructed CopyCtor (Suc (blocks w))) [0..<j] @ [Threw CopyCtor]
                 @ map (Destroyed (Suc (blocks w))) [0..<j] @ [Deallocated (Suc (blocks w))]\<rparr>)"
proof -
  let ?a = "Suc (blocks w)"
  let ?w1 = "w\<lparr>blocks := ?a, trace := trace w @ [Allocated ?a n]\<rparr>"
  let ?src = "cells (data_m v)"
  let ?dst = "placed (replicate n Raw) 0 (objects ?src 0 j)"
  let ?w2 = "?w1\<lparr>calls := Suc (calls ?w1 + j),
      trace := trace ?w1 @ map (Constructed CopyCtor ?a) [0..<0 + j] @ [Threw CopyCtor]\<rparr>"
  from j have j': "j < size_m v"
    by (simp add: Size_def)
  from ok have le: "size_m v \<le> Capacity v"
    by (simp add: Vector_ok_def Capacity_def)
  from grow have "n \<noteq> 0"
    by simp
  then have ctor: "RawMemory_ctor cfg n w =
      Normal \<lparr>buffer_m = ?a, capacity_m = n, cells = replicate n Raw\<rparr> ?w1"
    using alloc by (rule RawMemory_ctor_granted)
  have reads: "\<forall>i\<le>j. read_obj ?src (0 + i) \<noteq> None"
  proof (intro allI impI)
    fix i assume "i \<le> j"
    with j' have "i < size_m v"
      by simp
    with ok show "read_obj ?src (0 + i) \<noteq> None"
      by (simp add: Vector_ok_reads)
  qed
  have room: "0 + j < length (replicate n Raw :: 'a slot list)"
    using j' le grow by simp
  have q: "\<forall>i<j. \<not> may_throw cfg CopyCtor (calls ?w1 + i)"
    using quiet by (simp add: may_throw_def)
  have l: "may_throw cfg CopyCtor (calls ?w1 + j)"
    using loud by (simp add: may_throw_def)
  have loop: "copy_loop cfg ?src 0 (size_m v) ?a (0, replicate n Raw, ?w1) =
      Exception (MemberThrew CopyCtor) (0 + j, ?dst, ?w2)"
    by (rule copy_loop_throw [OF j' reads room q l])
  have fits: "0 + j \<le> length ?dst"
    using room by simp
  have live: "list_all is_Obj (take j (drop 0 ?dst))"
    using take_placed_0 [of "objects ?src 0 j" "replicate n Raw"] by simp
  have transfer: "uninitialized_copy_n cfg ?src 0 (size_m v) ?a 0 (replicate n Raw, ?w1) =
      Exception (MemberThrew CopyCtor)
        (wipe ?dst 0 j, ?w2\<lparr>trace := trace ?w2 @ map (Destroyed ?a) [0..<0 + j]\<rparr>)"
    using destroy_n_wipe [OF fits live, of ?a ?w2]
    by (simp add: uninitialized_copy_n_def loop destroy_range_def)
  show ?thesis
    using grow copies
    by (simp add: Reserve_def Capacity_def ctor SafeCopyingOrMoving_def transfer
        RawMemory_dtor_def Deallocate_def)
qed


theorem Reserve_strong_guarantee_witness:
  "Reserve (throwing_copy 1) 5 (vector_of 1 3 [10, 20, 30], fresh_world 1) =
     Exception (MemberThrew CopyCtor)
       (vector_of 1 3 [10, 20, 30],
        \<lparr>blocks = 2, calls = 2,
         trace = [Allocated 2 5, Constructed CopyCtor 2 0, Threw CopyCtor, Destroyed 2 0,
                  Deallocated 2]\<rparr>)"
proof -
  have ok: "Vector_ok (vector_of 1 3 [10, 20, 30::int])"
    by (simp add: run_defs unroll)
  have grow: "Capacity (vector_of 1 3 [10, 20, 30::int]) < 5"
    by (simp add: Capacity_def vector_of_def)
  have alloc: "5 * sizeof (throwing_copy 1) \<le> PTRDIFF_MAX"
    "\<not> bad_alloc (throwing_copy 1) (blocks (fresh_world 1)) (5 * sizeof (throwing_copy 1))"
    by (simp_all add: PTRDIFF_MAX_def sizeof_def throwing_copy_def)
  have copies: "copy_constructible (throwing_copy 1)"
    "\<not> nothrow_move_constructible (throwing_copy 1)"
    by (simp_all add: throwing_copy_def)
  have j: "1 < Size (vector_of 1 3 [10, 20, 30::int])"
    by (simp add: Size_def vector_of_def)
  have quiet: "\<forall>i<1. \<not> throws (throwing_copy 1) CopyCtor (calls (fresh_world 1) + i)"
    by (simp add: throwing_copy_def fresh_world_def)
  have loud: "throws (throwing_copy 1) CopyCtor (calls (fresh_world 1) + 1)"
    by (simp add: throwing_copy_def fresh_world_def)
  from Reserve_strong_guarantee [OF ok grow alloc copies j quiet loud]
  show ?thesis
    by (simp add: fresh_world_def)
qed

section \<open>Resize\<close>

lemma read_obj_update_other [simp]: "i \<noteq> j \<Longrightarrow> read_obj (cs[i := y]) j = read_obj cs j"
  by (simp add: read_obj_def)

lemma objects_update_before [simp]: "i < first \<Longrightarrow> objects (src[i := y]) first n = objects src first n"
  by (simp add: objects_def)

lemma upt_single: "[cur..<Suc cur] = [cur]"
  by simp

lemma copy_loop_Normal:
  "copy_loop cfg src first n a (cur, dst, w) = Normal u (cur', dst', w') \<Longrightarrow>
     cur' = cur + n \<and> (n = 0 \<or> cur + n \<le> length dst)
     \<and> (\<forall>i<n. read_obj src (first + i) \<noteq> None)
     \<and> dst' = placed dst cur (objects src first n)
     \<and> w' = w\<lparr>calls := calls w + n,
                trace := trace w @ map (Constructed CopyCtor a) [cur..<cur + n]\<rparr>"
proof (induction n arbitrary: first cur dst w)
  case 0
  then show ?case by simp
next
  case (Suc n)
  from Suc.prems obtain x where x: "read_obj src first = Some x"
    by (auto split: option.splits)
  from Suc.prems x obtain s1 where
    c: "construct_at cfg CopyCtor x a cur (dst, w) = Normal () s1"
    and r: "copy_loop cfg src (Suc first) n a (Suc cur, s1) = Normal u (cur', dst', w')"
    by (auto split: result.splits)
  obtain d1 w1 where s1: "s1 = (d1, w1)"
    by (cases s1)
  note c' = construct_at_Normal [OF c [unfolded s1]]
  note ih = Suc.IH [OF r [unfolded s1]]
  from c' have here: "cur < length dst"
    by simp
  have reads: "\<forall>i<Suc n. read_obj src (first + i) \<noteq> None"
  proof (intro allI impI)
    fix i assume i: "i < Suc n"
    show "read_obj src (first + i) \<noteq> None"
    proof (cases i)
      case 0
      with x show ?thesis by simp
    next
      case (Suc k)
      with i ih show ?thesis by simp
    qed
  qed
  from ih c' here x reads show ?case
    by (auto simp: placed_update objects_Suc upt_first upt_single simp del: upt_Suc)
qed

lemma move_loop_Normal:
  "move_loop cfg first n a (cur, src, dst, w) = Normal u (cur', src', dst', w') \<Longrightarrow>
     cur' = cur + n \<and> (n = 0 \<or> cur + n \<le> length dst)
     \<and> (\<forall>i<n. read_obj src (first + i) \<noteq> None)
     \<and> dst' = placed dst cur (objects src first n)
     \<and> length src' = length src
     \<and> w' = w\<lparr>calls := calls w + n,
                trace := trace w @ map (Constructed MoveCtor a) [cur..<cur + n]\<rparr>"
proof (induction n arbitrary: first cur src dst w)
  case 0
  then show ?case by simp
next
  case (Suc n)
  from Suc.prems obtain x where x: "read_obj src first = Some x"
    by (auto split: option.splits)
  from Suc.prems x obtain d1 w1 where
    c: "construct_at cfg MoveCtor x a cur (dst, w) = Normal () (d1, w1)"
    and r: "move_loop cfg (Suc first) n a (Suc cur, src[first := Obj (moved_from cfg x)], d1, w1) =
              Normal u (cur', src', dst', w')"
    by (auto split: result.splits)
  note c' = construct_at_Normal [OF c]
  note ih = Suc.IH [OF r]
  from c' have here: "cur < length dst"
    by simp
  have reads: "\<forall>i<Suc n. read_obj src (first + i) \<noteq> None"
  proof (intro allI impI)
    fix i assume i: "i < Suc n"
    show "read_obj src (first + i) \<noteq> None"
    proof (cases i)
      case 0
      with x show ?thesis by simp
    next
      case (Suc k)
      with i ih show ?thesis by simp
    qed
  qed
  from ih c' here x reads show ?case
    by (auto simp: placed_update objects_Suc upt_first upt_single simp del: upt_Suc)
qed

lemma value_loop_Normal:
  "value_loop cfg n a (cur, dst, w) = Normal u (cur', dst', w') \<Longrightarrow>
     cur' = cur + n \<and> (n = 0 \<or> cur + n \<le> length dst)
     \<and> dst' = placed dst cur (replicate n (Obj (default_value cfg)))
     \<and> w' = w\<lparr>calls := calls w + n,
                trace := trace w @ map (Constructed DefaultCtor a) [cur..<cur + n]\<rparr>"
proof (induction n arbitrary: cur dst w)
  case 0
  then show ?case by simp
next
  case (Suc n)
  from Suc.prems obtain d1 w1 where
    c: "construct_at cfg DefaultCtor (default_value cfg) a cur (dst, w) = Normal () (d1, w1)"
    and r: "value_loop cfg n a (Suc cur, d1, w1) = Normal u (cur', dst', w')"
    by (auto split: result.splits)
  note c' = construct_at_Normal [OF c]
  note ih = Suc.IH [OF r]
  from c' have here: "cur < length dst"
    by simp
  from ih c' here show ?case
    by (auto simp: placed_update upt_first upt_single simp del: upt_Suc)
qed

lemma uninitialized_copy_n_Normal:
  "uninitialized_copy_n cfg src first n a res (dst, w) = Normal u (dst', w') \<Longrightarrow>
     (n = 0 \<or> res + n \<le> length dst) \<and> (\<forall>i<n. read_obj src (first + i) \<noteq> None)
     \<and> dst' = placed dst res (objects src first n)"
  by (auto simp: uninitialized_copy_n_def split: result.splits prod.splits
      dest!: copy_loop_Normal)

lemma uninitialized_move_n_Normal:
  "uninitialized_move_n cfg first n a res (src, dst, w) = Normal u (src', dst', w') \<Longrightarrow>
     (n = 0 \<or> res + n \<le> length dst) \<and> (\<forall>i<n. read_obj src (first + i) \<noteq> None)
     \<and> dst' = placed dst res (objects src first n)"
  by (auto simp: uninitialized_move_n_def split: result.splits prod.splits
      dest!: move_loop_Normal)

lemma SafeCopyingOrMoving_Normal:
  "SafeCopyingOrMoving cfg first n a res (src, dst, w) = Normal u (src', dst', w') \<Longrightarrow>
     (n = 0 \<or> res + n \<le> length dst) \<and> (\<forall>i<n. read_obj src (first + i) \<noteq> None)
     \<and> dst' = placed dst res (objects src first n)"
  by (auto simp: SafeCopyingOrMoving_def split: result.splits prod.splits if_splits
      dest!: uninitialized_copy_n_Normal uninitialized_move_n_Normal)

lemma uninitialized_value_construct_n_Normal:
  "uninitialized_value_construct_n cfg a first n (dst, w) = Normal u (dst', w') \<Longrightarrow>
     (n = 0 \<or> first + n \<le> length dst)
     \<and> dst' = placed dst first (replicate n (Obj (default_value cfg)))
     \<and> w' = w\<lparr>calls := calls w + n,
                trace := trace w @ map (Constructed DefaultCtor a) [first..<first + n]\<rparr>"
  by (auto simp: uninitialized_value_construct_n_def split: result.splits prod.splits
      dest!: value_loop_Normal)

lemma read_obj_objects:
  "i < n \<Longrightarrow> read_obj src (first + i) \<noteq> None \<Longrightarrow>
     read_obj (objects src first n @ ys) i = read_obj src (first + i)"
  by (auto simp: read_obj_def objects_def nth_append split: slot.splits if_splits)

lemma all_Raw_replicate [simp]: "list_all is_Raw (replicate n Raw)"
  by (simp add: list_all_iff is_Raw_def)

lemma Reserve_Normal:
  assumes ok: "Vector_ok v" and run: "Reserve cfg n (v, w) = Normal () (v', w')"
  shows "size_m v' = size_m v \<and> elements v' = elements v
         \<and> Capacity v' = max (Capacity v) n
         \<and> (n \<le> Capacity v \<longrightarrow> v' = v)
         \<and> (Capacity v < n \<longrightarrow>
              buffer_m (data_m v') \<noteq> 0 \<and> block_bytes cfg n \<le> PTRDIFF_MAX
              \<and> cells (data_m v') =
                  objects (cells (data_m v)) 0 (size_m v)
                    @ replicate (block_bytes cfg n div sizeof cfg - size_m v) Raw)"
proof (cases "n \<le> Capacity v")
  case True
  with run ok show ?thesis
    by (simp add: Reserve_def Capacity_def max_def)
next
  case False
  let ?src = "cells (data_m v)"
  from False run obtain nd w1 src' dst' w2 where
    ctor: "RawMemory_ctor cfg n w = Normal nd w1"
    and transfer: "SafeCopyingOrMoving cfg 0 (size_m v) (buffer_m nd) 0 (?src, cells nd, w1) =
                     Normal () (src', dst', w2)"
    and adopted: "adopt v nd (src', dst', w2) = Normal () (v', w')"
    by (auto simp: Reserve_def Capacity_def split: result.splits prod.splits)
  note nd = RawMemory_ctor_Normal [OF ctor]
  note tr = SafeCopyingOrMoving_Normal [OF transfer]
  note ad = adopt_Normal [OF adopted]
  from False have n0: "n \<noteq> 0"
    by simp
  from tr nd have dst': "dst' = objects ?src 0 (size_m v)
      @ replicate (block_bytes cfg n div sizeof cfg - size_m v) Raw"
    by (simp add: placed_def)
  from tr have reads: "\<forall>i<size_m v. read_obj ?src i \<noteq> None"
    by simp
  have "read_obj dst' i = read_obj ?src i" if "i < size_m v" for i
    using that reads read_obj_objects [of i "size_m v" ?src 0] by (simp add: dst')
  then have el: "elements v' = elements v"
    by (simp add: elements_def ad)
  from el ad nd n0 False dst' show ?thesis
    by (simp add: Capacity_def max_def)
qed

text \<open>
  A \<^verbatim>\<open>Reserve\<close> that returns leaves a well-formed vector when the new block has all its
  cells, in particular when the bytes requested are within \<open>PTRDIFF_MAX\<close>.
\<close>

lemma Reserve_Normal_ok:
  assumes ok: "Vector_ok v" and run: "Reserve cfg n (v, w) = Normal () (v', w')"
    and whole: "Capacity v < n \<longrightarrow> n \<le> block_bytes cfg n div sizeof cfg"
  shows "Vector_ok v'"
proof (cases "n \<le> Capacity v")
  case True
  with Reserve_Normal [OF ok run] ok show ?thesis
    by simp
next
  case False
  note r = Reserve_Normal [OF ok run]
  from False whole have full: "n \<le> block_bytes cfg n div sizeof cfg"
    by simp
  with block_cells_le [of cfg n] have cells_n: "block_bytes cfg n div sizeof cfg = n"
    by simp
  have "n * 1 \<le> n * sizeof cfg"
    by (rule mult_le_mono2) (simp add: Suc_leI)
  then have "n \<le> n * sizeof cfg"
    by (simp only: nat_mult_1_right)
  also from block_cells_full [OF full] r False have "n * sizeof cfg \<le> PTRDIFF_MAX"
    by simp
  finally have bound: "n \<le> PTRDIFF_MAX" .
  from ok have le: "size_m v \<le> Capacity v"
    by (simp add: Vector_ok_def Capacity_def)
  with False have lt: "size_m v < n"
    by simp
  from r False cells_n bound lt show ?thesis
    by (simp add: Vector_ok_def RawMemory_ok_def Capacity_def max_def)
qed

lemma list_all_drop: "list_all P xs \<Longrightarrow> list_all P (drop n xs)"
  by (auto simp: list_all_iff dest: in_set_dropD)

lemma list_all_take: "list_all P xs \<Longrightarrow> list_all P (take n xs)"
  by (auto simp: list_all_iff dest: in_set_takeD)

lemma read_obj_placed_before [simp]:
  "i < first \<Longrightarrow> first \<le> length cs \<Longrightarrow> read_obj (placed cs first xs) i = read_obj cs i"
  by (simp add: read_obj_def placed_def nth_append)

lemma Resize_shrink:
  assumes ok: "Vector_ok v" and less: "n < size_m v"
  shows "Resize cfg n (v, w) =
           Normal () ((with_cells v (wipe (cells (data_m v)) n (size_m v - n)))\<lparr>size_m := n\<rparr>,
                      w\<lparr>trace := trace w @ map (Destroyed (buffer_m (data_m v))) [n..<size_m v]\<rparr>)"
    and "Vector_ok ((with_cells v (wipe (cells (data_m v)) n (size_m v - n)))\<lparr>size_m := n\<rparr>)"
    and "elements ((with_cells v (wipe (cells (data_m v)) n (size_m v - n)))\<lparr>size_m := n\<rparr>) =
           take n (elements v)"
proof -
  let ?cs = "cells (data_m v)"
  from ok have len: "length ?cs = capacity_m (data_m v)" and le: "size_m v \<le> capacity_m (data_m v)"
    and live: "list_all is_Obj (take (size_m v) ?cs)"
    and raw: "list_all is_Raw (drop (size_m v) ?cs)"
    by (simp_all add: Vector_ok_def RawMemory_ok_def)
  from less le len have fits: "n + (size_m v - n) \<le> length ?cs"
    by simp
  have "take (size_m v - n) (drop n ?cs) = drop n (take (size_m v) ?cs)"
    by (simp add: drop_take)
  with live have doomed: "list_all is_Obj (take (size_m v - n) (drop n ?cs))"
    by (simp add: list_all_drop)
  from less have span: "n + (size_m v - n) = size_m v"
    by simp
  from less le show "Resize cfg n (v, w) =
           Normal () ((with_cells v (wipe ?cs n (size_m v - n)))\<lparr>size_m := n\<rparr>,
                      w\<lparr>trace := trace w @ map (Destroyed (buffer_m (data_m v))) [n..<size_m v]\<rparr>)"
    by (simp add: Resize_def plus_aborts_def destroy_n_wipe [OF fits doomed] span)
  have wiped: "wipe ?cs n (size_m v - n) = take n ?cs @ replicate (size_m v - n) Raw @ drop (size_m v) ?cs"
    using less by (simp add: wipe_def placed_def)
  from less le len have "take n (take (size_m v) ?cs) = take n ?cs"
    by (simp add: min_def)
  with live have kept: "list_all is_Obj (take n ?cs)"
    using list_all_take [of is_Obj "take (size_m v) ?cs" n] by simp
  from ok less le len kept raw
  show "Vector_ok ((with_cells v (wipe ?cs n (size_m v - n)))\<lparr>size_m := n\<rparr>)"
    by (simp add: Vector_ok_def RawMemory_ok_def with_cells_def wiped)
  from less le len
  show "elements ((with_cells v (wipe ?cs n (size_m v - n)))\<lparr>size_m := n\<rparr>) = take n (elements v)"
    by (simp add: elements_def with_cells_def wipe_def take_map min_def)
qed

lemma all_Obj_replicate [simp]: "list_all is_Obj (replicate n (Obj x))"
  by (simp add: list_all_iff is_Obj_def)

lemma read_obj_fresh:
  "i < k \<Longrightarrow> read_obj (xs @ replicate k (Obj d) @ ys) (length xs + i) = Some d"
  by (simp add: read_obj_def nth_append)

lemma Resize_grow:
  assumes ok: "Vector_ok v" and more: "size_m v \<le> n"
    and run: "Resize cfg n (v, w) = Normal () (v', w')"
  shows "\<exists>v1 w1. Reserve cfg n (v, w) = Normal () (v1, w1)
           \<and> v' = (with_cells v1 (placed (cells (data_m v1)) (size_m v)
                      (replicate (n - size_m v) (Obj (default_value cfg)))))\<lparr>size_m := n\<rparr>
           \<and> w' = w1\<lparr>calls := calls w1 + (n - size_m v),
                      trace := trace w1 @ map (Constructed DefaultCtor (buffer_m (data_m v1)))
                                            [size_m v..<n]\<rparr>"
    and "size_m v' = n"
    and "elements v' = elements v @ replicate (n - size_m v) (Some (default_value cfg))"
    and "Vector_ok v'"
proof -
  from more run obtain v1 w1 cs where
    res: "Reserve cfg n (v, w) = Normal () (v1, w1)"
    and fill: "uninitialized_value_construct_n cfg (buffer_m (data_m v1)) (size_m v1)
                 (n - size_m v1) (cells (data_m v1), w1) = Normal () (cs, w')"
    and v': "v' = (with_cells v1 cs)\<lparr>size_m := n\<rparr>"
    by (auto simp: Resize_def split: result.splits prod.splits if_splits)
  note r = Reserve_Normal [OF ok res]
  note f = uninitialized_value_construct_n_Normal [OF fill]
  let ?c1 = "cells (data_m v1)"
  let ?k = "n - size_m v"
  let ?d = "default_value cfg"
  from r have sz: "size_m v1 = size_m v" and el: "elements v1 = elements v"
    and cap: "n \<le> capacity_m (data_m v1)"
    by (simp_all add: Capacity_def)
  have whole: "n \<le> block_bytes cfg n div sizeof cfg" if above: "Capacity v < n"
  proof -
    from ok have within: "size_m v \<le> Capacity v"
      by (simp add: Vector_ok_def Capacity_def)
    with above have "n - size_m v \<noteq> 0"
      by simp
    with f have "size_m v + (n - size_m v) \<le> length ?c1"
      by (simp add: sz)
    with r above more within show ?thesis
      by simp
  qed
  then have ok1: "Vector_ok v1"
    using Reserve_Normal_ok [OF ok res] by simp
  from ok1 have len: "length ?c1 = capacity_m (data_m v1)"
    and live: "list_all is_Obj (take (size_m v) ?c1)"
    and raw: "list_all is_Raw (drop (size_m v) ?c1)"
    by (simp_all add: Vector_ok_def RawMemory_ok_def sz)
  from f have cs: "cs = placed ?c1 (size_m v) (replicate ?k (Obj ?d))"
    by (simp add: sz)
  from more have span: "size_m v + ?k = n"
    by simp
  from f more show "\<exists>v1 w1. Reserve cfg n (v, w) = Normal () (v1, w1)
           \<and> v' = (with_cells v1 (placed (cells (data_m v1)) (size_m v)
                      (replicate (n - size_m v) (Obj (default_value cfg)))))\<lparr>size_m := n\<rparr>
           \<and> w' = w1\<lparr>calls := calls w1 + (n - size_m v),
                      trace := trace w1 @ map (Constructed DefaultCtor (buffer_m (data_m v1)))
                                            [size_m v..<n]\<rparr>"
    by (intro exI [of _ v1] exI [of _ w1]) (simp add: res v' sz)
  show "size_m v' = n"
    by (simp add: v')
  have expand: "cs = take (size_m v) ?c1 @ replicate ?k (Obj ?d) @ drop n ?c1"
    by (simp add: cs placed_def span)
  have "drop n ?c1 = drop ?k (drop (size_m v) ?c1)"
    using more by simp
  with raw have tail: "list_all is_Raw (drop n ?c1)"
    by (simp add: list_all_drop del: drop_drop)
  from more cap len have lt: "length (take (size_m v) ?c1) = size_m v"
    by simp
  from ok1 more cap len live tail lt show "Vector_ok v'"
    by (simp add: v' Vector_ok_def RawMemory_ok_def with_cells_def expand)
  have old: "read_obj cs i = read_obj ?c1 i" if "i < size_m v" for i
    using that more cap len by (simp add: cs)
  have new: "read_obj cs (size_m v + i) = Some ?d" if "i < ?k" for i
    using that more cap len read_obj_fresh [of i ?k "take (size_m v) ?c1" ?d "drop n ?c1"]
    by (auto simp: expand min_def split: if_splits)
  have "[0..<size_m v + ?k] = [0..<size_m v] @ [size_m v..<size_m v + ?k]"
    by (rule upt_add_eq_append) simp
  moreover have "map (\<lambda>i. i + size_m v) [0..<?k] = [size_m v..<?k + size_m v]"
    by (rule map_add_upt)
  ultimately have "[0..<n] = [0..<size_m v] @ map (\<lambda>i. size_m v + i) [0..<?k]"
    using more by (simp add: add.commute)
  then have "map (read_obj cs) [0..<n] =
      map (read_obj ?c1) [0..<size_m v] @ map (\<lambda>i. Some ?d) [0..<?k]"
    using old new by (simp add: comp_def)
  then show "elements v' = elements v @ replicate (n - size_m v) (Some (default_value cfg))"
    using el by (simp add: elements_def v' with_cells_def sz map_replicate_const)
qed



section \<open>Growth at capacity\<close>

lemma later_iff: "later w w' \<longleftrightarrow> blocks w' = blocks w \<and> (\<exists>es. trace w' = trace w @ es)"
proof
  assume l: "later w w'"
  then have "trace w' = trace w @ drop (length (trace w)) (trace w')"
    by (metis later_def append_take_drop_id)
  with l show "blocks w' = blocks w \<and> (\<exists>es. trace w' = trace w @ es)"
    by (auto simp: later_def)
next
  assume "blocks w' = blocks w \<and> (\<exists>es. trace w' = trace w @ es)"
  then show "later w w'"
    by (auto simp: later_def)
qed

lemma later_refl [simp]: "later w w"
  by (simp add: later_def)

lemma later_trans: "later w w1 \<Longrightarrow> later w1 w2 \<Longrightarrow> later w w2"
  by (auto simp: later_iff)

lemma later_step [simp]:
  "later w (w\<lparr>trace := trace w @ es\<rparr>)" "later w (w\<lparr>calls := c, trace := trace w @ es\<rparr>)"
  by (simp_all add: later_def)

lemma later_Deallocate [simp]: "later w (Deallocate a w)"
  by (simp add: Deallocate_def)

lemma allocated_first_later:
  "later (w\<lparr>blocks := Suc (blocks w), trace := trace w @ [Allocated (Suc (blocks w)) n]\<rparr>) w' \<Longrightarrow>
     allocated_first w n w'"
  by (auto simp: later_iff allocated_first_def)

lemma same_outside_refl [simp]: "same_outside cs cs lo hi"
  by (simp add: same_outside_def)

lemma same_outside_update:
  "same_outside (cs[cur := y]) cs' (Suc cur) hi \<Longrightarrow> cur < hi \<Longrightarrow> same_outside cs cs' cur hi"
  by (auto simp: same_outside_def)

lemma same_outside_nth:
  "same_outside cs cs' lo hi \<Longrightarrow> i < length cs \<Longrightarrow> i < lo \<or> hi \<le> i \<Longrightarrow> cs' ! i = cs ! i"
  by (auto simp: same_outside_def)

lemma same_outside_length: "same_outside cs cs' lo hi \<Longrightarrow> length cs' = length cs"
  by (simp add: same_outside_def)

lemma same_outside_widen:
  "same_outside cs cs' lo hi \<Longrightarrow> lo' \<le> lo \<Longrightarrow> hi \<le> hi' \<Longrightarrow> same_outside cs cs' lo' hi'"
  by (auto simp: same_outside_def)

lemma same_outside_trans:
  "same_outside a b lo hi \<Longrightarrow> same_outside b c lo hi \<Longrightarrow> same_outside a c lo hi"
  by (auto simp: same_outside_def)

lemma still_live_refl [simp]: "still_live src src"
  by (simp add: still_live_def)

lemma still_live_trans: "still_live a b \<Longrightarrow> still_live b c \<Longrightarrow> still_live a c"
  by (auto simp: still_live_def)

lemma still_live_update [simp]: "still_live src (src[i := Obj y])"
proof -
  have "is_Obj (src[i := Obj y] ! k)" if "k < length src" "is_Obj (src ! k)" for k
    using that by (cases "k = i") (simp_all add: is_Obj_def)
  then show ?thesis
    by (simp add: still_live_def)
qed

lemma nth_placed_outside:
  "first + length xs \<le> length cs \<Longrightarrow> i < length cs \<Longrightarrow> i < first \<or> first + length xs \<le> i \<Longrightarrow>
     placed cs first xs ! i = cs ! i"
  by (auto simp: placed_def nth_append min_def)

lemma same_outside_wipe:
  assumes "same_outside dst dst' res cur'" and "res \<le> cur'" and "cur' \<le> hi" and "cur' \<le> length dst"
  shows "same_outside dst (wipe dst' res (cur' - res)) res hi"
proof -
  from assms have len: "length dst' = length dst"
    by (simp add: same_outside_def)
  with assms have fits: "res + length (replicate (cur' - res) (Raw :: 'a slot)) \<le> length dst'"
    by simp
  have "wipe dst' res (cur' - res) ! i = dst ! i" if "i < length dst" "i < res \<or> hi \<le> i" for i
  proof -
    from that assms have out: "i < res \<or> res + length (replicate (cur' - res) (Raw :: 'a slot)) \<le> i"
      by auto
    from that len have "i < length dst'"
      by simp
    from nth_placed_outside [OF fits this out] have "wipe dst' res (cur' - res) ! i = dst' ! i"
      by (simp add: wipe_def)
    also from assms(1) that assms(3) have "dst' ! i = dst ! i"
      by (auto simp: same_outside_def)
    finally show ?thesis .
  qed
  moreover from fits have "length (wipe dst' res (cur' - res)) = length dst'"
    unfolding wipe_def by (rule length_placed)
  ultimately show ?thesis
    using len by (simp add: same_outside_def)
qed

lemma live_range:
  assumes "\<forall>i. res \<le> i \<and> i < cur' \<longrightarrow> is_Obj (dst' ! i)" and "cur' \<le> length dst'"
  shows "list_all is_Obj (take (cur' - res) (drop res dst'))"
  using assms by (auto simp: list_all_length)

lemma copy_loop_progress:
  assumes "\<forall>i<n. read_obj src (first + i) \<noteq> None" and "cur + n \<le> length dst"
  shows "\<exists>cur' dst' w'.
           (copy_loop cfg src first n a (cur, dst, w) = Normal () (cur', dst', w') \<and> cur' = cur + n
            \<or> copy_loop cfg src first n a (cur, dst, w) =
                Exception (MemberThrew CopyCtor) (cur', dst', w')
              \<and> cur' < cur + n \<and> (\<exists>m. may_throw cfg CopyCtor m))
           \<and> cur \<le> cur' \<and> same_outside dst dst' cur cur'
           \<and> (\<forall>i. cur \<le> i \<and> i < cur' \<longrightarrow> is_Obj (dst' ! i)) \<and> later w w'"
  using assms
proof (induction n arbitrary: first cur dst w)
  case 0
  show ?case
    by (intro exI [of _ cur] exI [of _ dst] exI [of _ w]) auto
next
  case (Suc n)
  from Suc.prems(1) obtain x where x: "read_obj src first = Some x"
    by (auto dest: spec [of _ 0])
  from Suc.prems(2) have here: "cur < length dst"
    by simp
  show ?case
  proof (cases "may_throw cfg CopyCtor (calls w)")
    case True
    let ?w = "w\<lparr>calls := Suc (calls w), trace := trace w @ [Threw CopyCtor]\<rparr>"
    from True x here have "copy_loop cfg src first (Suc n) a (cur, dst, w) =
        Exception (MemberThrew CopyCtor) (cur, dst, ?w)"
      by (simp add: construct_at_def)
    with True show ?thesis
      by (intro exI [of _ cur] exI [of _ dst] exI [of _ ?w]) auto
  next
    case False
    let ?w = "w\<lparr>calls := Suc (calls w), trace := trace w @ [Constructed CopyCtor a cur]\<rparr>"
    let ?d = "dst[cur := Obj x]"
    from False x here have step: "copy_loop cfg src first (Suc n) a (cur, dst, w) =
        copy_loop cfg src (Suc first) n a (Suc cur, ?d, ?w)"
      by (simp add: construct_at_def)
    have reads: "\<forall>i<n. read_obj src (Suc first + i) \<noteq> None"
    proof (intro allI impI)
      fix i assume "i < n"
      with Suc.prems(1) have "read_obj src (first + Suc i) \<noteq> None"
        by (auto dest: spec [of _ "Suc i"])
      then show "read_obj src (Suc first + i) \<noteq> None"
        by simp
    qed
    from Suc.prems(2) have room: "Suc cur + n \<le> length ?d"
      by simp
    from Suc.IH [OF reads room, of ?w] obtain cur' dst' w' where
      run: "copy_loop cfg src (Suc first) n a (Suc cur, ?d, ?w) = Normal () (cur', dst', w')
              \<and> cur' = Suc cur + n
            \<or> copy_loop cfg src (Suc first) n a (Suc cur, ?d, ?w) =
                Exception (MemberThrew CopyCtor) (cur', dst', w')
              \<and> cur' < Suc cur + n \<and> (\<exists>m. may_throw cfg CopyCtor m)"
      and le: "Suc cur \<le> cur'" and same: "same_outside ?d dst' (Suc cur) cur'"
      and live: "\<forall>i. Suc cur \<le> i \<and> i < cur' \<longrightarrow> is_Obj (dst' ! i)"
      and lat: "later ?w w'"
      by blast
    from same le have same': "same_outside dst dst' cur cur'"
      by (simp add: same_outside_update)
    from same here have "dst' ! cur = ?d ! cur"
      by (simp add: same_outside_def)
    with here have first_cell: "is_Obj (dst' ! cur)"
      by (simp add: is_Obj_def)
    have live': "\<forall>i. cur \<le> i \<and> i < cur' \<longrightarrow> is_Obj (dst' ! i)"
    proof (intro allI impI)
      fix i assume i: "cur \<le> i \<and> i < cur'"
      show "is_Obj (dst' ! i)"
      proof (cases "i = cur")
        case True
        with first_cell show ?thesis
          by simp
      next
        case False
        with i have "Suc cur \<le> i \<and> i < cur'"
          by simp
        with live show ?thesis
          by blast
      qed
    qed
    have lat': "later w w'"
      by (rule later_trans [OF _ lat]) simp
    from run le same' live' lat' show ?thesis
      unfolding step
      by (intro exI [of _ cur'] exI [of _ dst'] exI [of _ w']) auto
  qed
qed

lemma move_loop_progress:
  assumes "\<forall>i<n. read_obj src (first + i) \<noteq> None" and "cur + n \<le> length dst"
  shows "\<exists>cur' src' dst' w'.
           (move_loop cfg first n a (cur, src, dst, w) = Normal () (cur', src', dst', w')
              \<and> cur' = cur + n
            \<or> move_loop cfg first n a (cur, src, dst, w) =
                Exception (MemberThrew MoveCtor) (cur', src', dst', w')
              \<and> cur' < cur + n \<and> (\<exists>m. may_throw cfg MoveCtor m))
           \<and> cur \<le> cur' \<and> same_outside dst dst' cur cur'
           \<and> (\<forall>i. cur \<le> i \<and> i < cur' \<longrightarrow> is_Obj (dst' ! i))
           \<and> still_live src src' \<and> later w w'"
  using assms
proof (induction n arbitrary: first cur src dst w)
  case 0
  show ?case
    by (intro exI [of _ cur] exI [of _ src] exI [of _ dst] exI [of _ w]) auto
next
  case (Suc n)
  from Suc.prems(1) obtain x where x: "read_obj src first = Some x"
    by (auto dest: spec [of _ 0])
  from Suc.prems(2) have here: "cur < length dst"
    by simp
  show ?case
  proof (cases "may_throw cfg MoveCtor (calls w)")
    case True
    let ?w = "w\<lparr>calls := Suc (calls w), trace := trace w @ [Threw MoveCtor]\<rparr>"
    from True x here have "move_loop cfg first (Suc n) a (cur, src, dst, w) =
        Exception (MemberThrew MoveCtor) (cur, src, dst, ?w)"
      by (simp add: construct_at_def)
    with True show ?thesis
      by (intro exI [of _ cur] exI [of _ src] exI [of _ dst] exI [of _ ?w]) auto
  next
    case False
    let ?w = "w\<lparr>calls := Suc (calls w), trace := trace w @ [Constructed MoveCtor a cur]\<rparr>"
    let ?d = "dst[cur := Obj x]"
    let ?s = "src[first := Obj (moved_from cfg x)]"
    from False x here have step: "move_loop cfg first (Suc n) a (cur, src, dst, w) =
        move_loop cfg (Suc first) n a (Suc cur, ?s, ?d, ?w)"
      by (simp add: construct_at_def)
    have reads: "\<forall>i<n. read_obj ?s (Suc first + i) \<noteq> None"
    proof (intro allI impI)
      fix i assume "i < n"
      with Suc.prems(1) have "read_obj src (first + Suc i) \<noteq> None"
        by (auto dest: spec [of _ "Suc i"])
      then show "read_obj ?s (Suc first + i) \<noteq> None"
        by simp
    qed
    from Suc.prems(2) have room: "Suc cur + n \<le> length ?d"
      by simp
    from Suc.IH [OF reads room, of ?w] obtain cur' src' dst' w' where
      run: "move_loop cfg (Suc first) n a (Suc cur, ?s, ?d, ?w) = Normal () (cur', src', dst', w')
              \<and> cur' = Suc cur + n
            \<or> move_loop cfg (Suc first) n a (Suc cur, ?s, ?d, ?w) =
                Exception (MemberThrew MoveCtor) (cur', src', dst', w')
              \<and> cur' < Suc cur + n \<and> (\<exists>m. may_throw cfg MoveCtor m)"
      and le: "Suc cur \<le> cur'" and same: "same_outside ?d dst' (Suc cur) cur'"
      and live: "\<forall>i. Suc cur \<le> i \<and> i < cur' \<longrightarrow> is_Obj (dst' ! i)"
      and sl: "still_live ?s src'"
      and lat: "later ?w w'"
      by blast
    from same le have same': "same_outside dst dst' cur cur'"
      by (simp add: same_outside_update)
    from same here have "dst' ! cur = ?d ! cur"
      by (simp add: same_outside_def)
    with here have first_cell: "is_Obj (dst' ! cur)"
      by (simp add: is_Obj_def)
    have live': "\<forall>i. cur \<le> i \<and> i < cur' \<longrightarrow> is_Obj (dst' ! i)"
    proof (intro allI impI)
      fix i assume i: "cur \<le> i \<and> i < cur'"
      show "is_Obj (dst' ! i)"
      proof (cases "i = cur")
        case True
        with first_cell show ?thesis
          by simp
      next
        case False
        with i have "Suc cur \<le> i \<and> i < cur'"
          by simp
        with live show ?thesis
          by blast
      qed
    qed
    have lat': "later w w'"
      by (rule later_trans [OF _ lat]) simp
    have sl': "still_live src src'"
      by (rule still_live_trans [OF _ sl]) simp
    from run le same' live' lat' sl' show ?thesis
      unfolding step
      by (intro exI [of _ cur'] exI [of _ src'] exI [of _ dst'] exI [of _ w']) auto
  qed
qed

lemma uninitialized_copy_n_progress:
  assumes reads: "\<forall>i<n. read_obj src (first + i) \<noteq> None" and room: "res + n \<le> length dst"
  shows "\<exists>dst' w'.
           (uninitialized_copy_n cfg src first n a res (dst, w) = Normal () (dst', w')
            \<or> (\<exists>e. uninitialized_copy_n cfg src first n a res (dst, w) = Exception e (dst', w'))
              \<and> (\<exists>k m. may_throw cfg k m))
           \<and> same_outside dst dst' res (res + n) \<and> later w w'"
proof -
  from copy_loop_progress [OF reads room, of cfg a w] obtain cur' dst' w' where
    run: "copy_loop cfg src first n a (res, dst, w) = Normal () (cur', dst', w') \<and> cur' = res + n
          \<or> copy_loop cfg src first n a (res, dst, w) =
              Exception (MemberThrew CopyCtor) (cur', dst', w')
            \<and> cur' < res + n \<and> (\<exists>m. may_throw cfg CopyCtor m)"
    and le: "res \<le> cur'" and same: "same_outside dst dst' res cur'"
    and live: "\<forall>i. res \<le> i \<and> i < cur' \<longrightarrow> is_Obj (dst' ! i)"
    and lat: "later w w'"
    by blast
  from run show ?thesis
  proof
    assume n: "copy_loop cfg src first n a (res, dst, w) = Normal () (cur', dst', w')
      \<and> cur' = res + n"
    with same lat show ?thesis
      by (intro exI [of _ dst'] exI [of _ w']) (simp add: uninitialized_copy_n_def)
  next
    assume e: "copy_loop cfg src first n a (res, dst, w) =
        Exception (MemberThrew CopyCtor) (cur', dst', w')
      \<and> cur' < res + n \<and> (\<exists>m. may_throw cfg CopyCtor m)"
    from same have len: "length dst' = length dst"
      by (rule same_outside_length)
    from e room len have in_block: "cur' \<le> length dst'" "cur' \<le> length dst" "cur' \<le> res + n"
      by simp_all
    from le in_block have fits: "res + (cur' - res) \<le> length dst'"
      by simp
    let ?w = "w'\<lparr>trace := trace w' @ map (Destroyed a) [res..<res + (cur' - res)]\<rparr>"
    from destroy_n_wipe [OF fits live_range [OF live in_block(1)], of a w'] le e
    have "uninitialized_copy_n cfg src first n a res (dst, w) =
        Exception (MemberThrew CopyCtor) (wipe dst' res (cur' - res), ?w)"
      by (simp add: uninitialized_copy_n_def destroy_range_def)
    moreover have "same_outside dst (wipe dst' res (cur' - res)) res (res + n)"
      using same le in_block(3) in_block(2) by (rule same_outside_wipe)
    moreover have "later w ?w"
      by (rule later_trans [OF lat]) simp
    ultimately show ?thesis
      using e by (intro exI [of _ "wipe dst' res (cur' - res)"] exI [of _ ?w]) auto
  qed
qed

lemma uninitialized_move_n_progress:
  assumes reads: "\<forall>i<n. read_obj src (first + i) \<noteq> None" and room: "res + n \<le> length dst"
  shows "\<exists>src' dst' w'.
           (uninitialized_move_n cfg first n a res (src, dst, w) = Normal () (src', dst', w')
            \<or> (\<exists>e. uninitialized_move_n cfg first n a res (src, dst, w) =
                      Exception e (src', dst', w'))
              \<and> (\<exists>k m. may_throw cfg k m))
           \<and> still_live src src' \<and> same_outside dst dst' res (res + n) \<and> later w w'"
proof -
  from move_loop_progress [OF reads room, of cfg a w] obtain cur' src' dst' w' where
    run: "move_loop cfg first n a (res, src, dst, w) = Normal () (cur', src', dst', w')
            \<and> cur' = res + n
          \<or> move_loop cfg first n a (res, src, dst, w) =
              Exception (MemberThrew MoveCtor) (cur', src', dst', w')
            \<and> cur' < res + n \<and> (\<exists>m. may_throw cfg MoveCtor m)"
    and le: "res \<le> cur'" and same: "same_outside dst dst' res cur'"
    and live: "\<forall>i. res \<le> i \<and> i < cur' \<longrightarrow> is_Obj (dst' ! i)"
    and sl: "still_live src src'"
    and lat: "later w w'"
    by blast
  from run show ?thesis
  proof
    assume n: "move_loop cfg first n a (res, src, dst, w) = Normal () (cur', src', dst', w')
      \<and> cur' = res + n"
    with same lat sl show ?thesis
      by (intro exI [of _ src'] exI [of _ dst'] exI [of _ w'])
        (simp add: uninitialized_move_n_def)
  next
    assume e: "move_loop cfg first n a (res, src, dst, w) =
        Exception (MemberThrew MoveCtor) (cur', src', dst', w')
      \<and> cur' < res + n \<and> (\<exists>m. may_throw cfg MoveCtor m)"
    from same have len: "length dst' = length dst"
      by (rule same_outside_length)
    from e room len have in_block: "cur' \<le> length dst'" "cur' \<le> length dst" "cur' \<le> res + n"
      by simp_all
    from le in_block have fits: "res + (cur' - res) \<le> length dst'"
      by simp
    let ?w = "w'\<lparr>trace := trace w' @ map (Destroyed a) [res..<res + (cur' - res)]\<rparr>"
    from destroy_n_wipe [OF fits live_range [OF live in_block(1)], of a w'] le e
    have "uninitialized_move_n cfg first n a res (src, dst, w) =
        Exception (MemberThrew MoveCtor) (src', wipe dst' res (cur' - res), ?w)"
      by (simp add: uninitialized_move_n_def destroy_range_def)
    moreover have "same_outside dst (wipe dst' res (cur' - res)) res (res + n)"
      using same le in_block(3) in_block(2) by (rule same_outside_wipe)
    moreover have "later w ?w"
      by (rule later_trans [OF lat]) simp
    ultimately show ?thesis
      using e sl
      by (intro exI [of _ src'] exI [of _ "wipe dst' res (cur' - res)"] exI [of _ ?w]) auto
  qed
qed

lemma SafeCopyingOrMoving_progress:
  assumes reads: "\<forall>i<n. read_obj src (first + i) \<noteq> None" and room: "res + n \<le> length dst"
  shows "\<exists>src' dst' w'.
           (SafeCopyingOrMoving cfg first n a res (src, dst, w) = Normal () (src', dst', w')
            \<or> (\<exists>e. SafeCopyingOrMoving cfg first n a res (src, dst, w) =
                      Exception e (src', dst', w'))
              \<and> (\<exists>k m. may_throw cfg k m))
           \<and> still_live src src' \<and> same_outside dst dst' res (res + n) \<and> later w w'"
proof (cases "nothrow_move_constructible cfg \<or> \<not> copy_constructible cfg")
  case True
  with uninitialized_move_n_progress [OF reads room, of cfg a w] show ?thesis
    by (simp add: SafeCopyingOrMoving_def)
next
  case False
  from uninitialized_copy_n_progress [OF reads room, of cfg a w] obtain dst' w' where
    run: "uninitialized_copy_n cfg src first n a res (dst, w) = Normal () (dst', w')
          \<or> (\<exists>e. uninitialized_copy_n cfg src first n a res (dst, w) = Exception e (dst', w'))
            \<and> (\<exists>k m. may_throw cfg k m)"
    and rest: "same_outside dst dst' res (res + n)" "later w w'"
    by blast
  from run rest False show ?thesis
    by (intro exI [of _ src] exI [of _ dst'] exI [of _ w'])
      (auto simp: SafeCopyingOrMoving_def)
qed


lemma destroy_n_cases:
  "destroy_n a first n (cs, w) = Undefined
   \<or> (\<exists>cs' w'. destroy_n a first n (cs, w) = Normal () (cs', w') \<and> length cs' = length cs
         \<and> later w w')"
proof (induction n arbitrary: first cs w)
  case 0
  show ?case by simp
next
  case (Suc n)
  show ?case
  proof (cases "first < length cs \<and> is_Obj (cs ! first)")
    case True
    let ?w = "w\<lparr>trace := trace w @ [Destroyed a first]\<rparr>"
    from True have step: "destroy_n a first (Suc n) (cs, w) =
        destroy_n a (Suc first) n (cs[first := Raw], ?w)"
      by (simp add: destroy_at_def)
    from Suc.IH [of "Suc first" "cs[first := Raw]" ?w]
    have "destroy_n a (Suc first) n (cs[first := Raw], ?w) = Undefined
      \<or> (\<exists>cs' w'. destroy_n a (Suc first) n (cs[first := Raw], ?w) = Normal () (cs', w')
            \<and> length cs' = length cs \<and> later w w')"
    proof
      assume "destroy_n a (Suc first) n (cs[first := Raw], ?w) = Undefined"
      then show ?thesis by simp
    next
      assume "\<exists>cs' w'. destroy_n a (Suc first) n (cs[first := Raw], ?w) = Normal () (cs', w')
        \<and> length cs' = length (cs[first := Raw]) \<and> later ?w w'"
      then obtain cs' w' where
        r: "destroy_n a (Suc first) n (cs[first := Raw], ?w) = Normal () (cs', w')"
        and l: "length cs' = length (cs[first := Raw])" and lat: "later ?w w'"
        by blast
      have "later w w'"
        by (rule later_trans [OF _ lat]) simp
      with r l show ?thesis
        by simp
    qed
    then show ?thesis
      by (simp only: step)
  next
    case False
    then show ?thesis
      by (auto simp: destroy_at_def)
  qed
qed

lemma read_obj_live_iff: "read_obj cs i \<noteq> None \<longleftrightarrow> i < length cs \<and> is_Obj (cs ! i)"
  by (simp add: read_obj_def is_Obj_def split: slot.splits)

lemma still_live_reads:
  assumes "still_live src src'" and "\<forall>i<n. read_obj src (first + i) \<noteq> None"
  shows "\<forall>i<n. read_obj src' (first + i) \<noteq> None"
  using assms unfolding read_obj_live_iff still_live_def by auto

lemma adopt_progress:
  assumes "size_m v \<le> length src" and "\<forall>i<size_m v. is_Obj (src ! i)"
  shows "\<exists>w'. adopt v nd (src, dst, w) = Normal () (v\<lparr>data_m := nd\<lparr>cells := dst\<rparr>\<rparr>, w')
           \<and> later w w'"
proof -
  let ?a = "buffer_m (data_m v)"
  let ?w1 = "w\<lparr>trace := trace w @ map (Destroyed ?a) [0..<0 + size_m v]\<rparr>"
  from assms(1) have fits: "0 + size_m v \<le> length src"
    by simp
  from assms have live: "list_all is_Obj (take (size_m v) (drop 0 src))"
    by (simp add: list_all_length)
  from destroy_n_wipe [OF fits live, of ?a w]
  have "adopt v nd (src, dst, w) =
      Normal () (v\<lparr>data_m := nd\<lparr>cells := dst\<rparr>\<rparr>, Deallocate ?a ?w1)"
    by (simp add: adopt_def RawMemory_Swap_def RawMemory_dtor_def)
  moreover have "later w (Deallocate ?a ?w1)"
    by (rule later_trans [of w ?w1]) simp_all
  ultimately show ?thesis
    by blast
qed

lemma Emplace_before_progress:
  assumes reads: "\<forall>i<pos. read_obj src (0 + i) \<noteq> None"
    and here: "pos < length dst" "is_Obj (dst ! pos)" and cap: "pos \<le> capacity_m nd"
  shows "\<exists>src' dst' w'. Emplace_before cfg pos nd (src, dst, w) = Normal () (src', dst', w')
           \<and> still_live src src' \<and> length dst' = length dst \<and> later w w'"
proof -
  from here have room: "0 + pos \<le> length dst"
    by simp
  from SafeCopyingOrMoving_progress [OF reads room, of cfg "buffer_m nd" w]
  obtain src' dst' w' where
    run: "SafeCopyingOrMoving cfg 0 pos (buffer_m nd) 0 (src, dst, w) = Normal () (src', dst', w')
          \<or> (\<exists>e. SafeCopyingOrMoving cfg 0 pos (buffer_m nd) 0 (src, dst, w) =
                    Exception e (src', dst', w'))
            \<and> (\<exists>k m. may_throw cfg k m)"
    and sl: "still_live src src'" and same: "same_outside dst dst' 0 (0 + pos)"
    and lat: "later w w'"
    by blast
  from same have len: "length dst' = length dst"
    by (rule same_outside_length)
  from run show ?thesis
  proof
    assume "SafeCopyingOrMoving cfg 0 pos (buffer_m nd) 0 (src, dst, w) =
      Normal () (src', dst', w')"
    with sl len lat show ?thesis
      by (simp add: Emplace_before_def)
  next
    assume "(\<exists>e. SafeCopyingOrMoving cfg 0 pos (buffer_m nd) 0 (src, dst, w) =
                    Exception e (src', dst', w'))
            \<and> (\<exists>k m. may_throw cfg k m)"
    then obtain e where e: "SafeCopyingOrMoving cfg 0 pos (buffer_m nd) 0 (src, dst, w) =
        Exception e (src', dst', w')"
      by blast
    from same_outside_nth [OF same here(1)] here(2) have "is_Obj (dst' ! pos)"
      by simp
    with here(1) len cap have "Emplace_before cfg pos nd (src, dst, w) =
        Normal () (src', dst'[pos := Raw], w'\<lparr>trace := trace w' @ [Destroyed (buffer_m nd) pos]\<rparr>)"
      by (simp add: Emplace_before_def e plus_aborts_def destroy_at_def)
    moreover have "later w (w'\<lparr>trace := trace w' @ [Destroyed (buffer_m nd) pos]\<rparr>)"
      by (rule later_trans [OF lat]) simp
    ultimately show ?thesis
      using sl len by simp
  qed
qed

lemma Emplace_after_progress:
  assumes reads: "\<forall>i<sz - pos. read_obj src (pos + i) \<noteq> None"
    and pos: "pos \<le> sz" and room: "Suc sz \<le> length dst" and cap: "pos \<le> capacity_m nd"
  shows "Emplace_after cfg pos sz nd (src, dst, w) = Undefined \<and> (\<exists>k m. may_throw cfg k m)
         \<or> (\<exists>src' dst' w'. Emplace_after cfg pos sz nd (src, dst, w) = Normal () (src', dst', w')
               \<and> still_live src src' \<and> later w w')"
proof -
  from pos have minus: "size_t_minus sz pos = sz - pos"
    by (simp add: size_t_minus_def)
  from pos room have room': "pos + 1 + (sz - pos) \<le> length dst"
    by simp
  from SafeCopyingOrMoving_progress [OF reads room', of cfg "buffer_m nd" w]
  obtain src' dst' w' where
    run: "SafeCopyingOrMoving cfg pos (sz - pos) (buffer_m nd) (pos + 1) (src, dst, w) =
            Normal () (src', dst', w')
          \<or> (\<exists>e. SafeCopyingOrMoving cfg pos (sz - pos) (buffer_m nd) (pos + 1) (src, dst, w) =
                    Exception e (src', dst', w'))
            \<and> (\<exists>k m. may_throw cfg k m)"
    and sl: "still_live src src'" and lat: "later w w'"
    by blast
  from run show ?thesis
  proof
    assume "SafeCopyingOrMoving cfg pos (sz - pos) (buffer_m nd) (pos + 1) (src, dst, w) =
      Normal () (src', dst', w')"
    with sl lat cap show ?thesis
      by (simp add: Emplace_after_def minus plus_aborts_def)
  next
    assume thrown: "(\<exists>e. SafeCopyingOrMoving cfg pos (sz - pos) (buffer_m nd) (pos + 1)
        (src, dst, w) = Exception e (src', dst', w'))
      \<and> (\<exists>k m. may_throw cfg k m)"
    then obtain e where e: "SafeCopyingOrMoving cfg pos (sz - pos) (buffer_m nd) (pos + 1)
        (src, dst, w) = Exception e (src', dst', w')"
      by blast
    from destroy_n_cases [of "buffer_m nd" 0 pos dst' w'] show ?thesis
    proof
      assume "destroy_n (buffer_m nd) 0 pos (dst', w') = Undefined"
      with cap thrown e show ?thesis
        by (simp add: Emplace_after_def minus plus_aborts_def destroy_range_def)
    next
      assume "\<exists>cs w2. destroy_n (buffer_m nd) 0 pos (dst', w') = Normal () (cs, w2)
        \<and> length cs = length dst' \<and> later w' w2"
      then obtain cs w2 where d: "destroy_n (buffer_m nd) 0 pos (dst', w') = Normal () (cs, w2)"
        and lat2: "later w' w2"
        by blast
      from cap e d have "Emplace_after cfg pos sz nd (src, dst, w) = Normal () (src', cs, w2)"
        by (simp add: Emplace_after_def minus plus_aborts_def destroy_range_def)
      moreover have "later w w2"
        by (rule later_trans [OF lat lat2])
      ultimately show ?thesis
        using sl by simp
    qed
  qed
qed

lemma full_vector:
  assumes ok: "Vector_ok v" and full: "size_m v = Capacity v"
    and fit: "max 1 (Capacity v) * sizeof cfg \<le> PTRDIFF_MAX"
  shows "new_capacity (size_m v) = max 1 (Capacity v * 2)"
    and "max 1 (Capacity v * 2) * sizeof cfg < 2 ^ 64"
    and "size_m v < max 1 (Capacity v * 2)"
    and "length (cells (data_m v)) = size_m v"
    and "\<forall>i<size_m v. is_Obj (cells (data_m v) ! i)"
    and "\<forall>i<n. i < size_m v \<longrightarrow> read_obj (cells (data_m v)) i \<noteq> None"
proof -
  show "new_capacity (size_m v) = max 1 (Capacity v * 2)"
    using ok full by (rule grown_capacity)
  have "max 1 (Capacity v * 2) \<le> 2 * max 1 (Capacity v)"
    by simp
  then have "max 1 (Capacity v * 2) * sizeof cfg \<le> 2 * max 1 (Capacity v) * sizeof cfg"
    by (rule mult_le_mono1)
  also from fit have "\<dots> \<le> 2 * PTRDIFF_MAX"
    by simp
  also have "\<dots> < 2 ^ 64"
    by (simp add: PTRDIFF_MAX_def)
  finally show "max 1 (Capacity v * 2) * sizeof cfg < 2 ^ 64" .
  from full show "size_m v < max 1 (Capacity v * 2)"
    by simp
  from ok full show len: "length (cells (data_m v)) = size_m v"
    by (simp add: Vector_ok_def RawMemory_ok_def Capacity_def)
  from ok len show live: "\<forall>i<size_m v. is_Obj (cells (data_m v) ! i)"
    by (simp add: Vector_ok_def list_all_length)
  from len live show "\<forall>i<n. i < size_m v \<longrightarrow> read_obj (cells (data_m v)) i \<noteq> None"
    unfolding read_obj_live_iff by simp
qed


lemma grows_to_Exception:
  "later (w\<lparr>blocks := Suc (blocks w), trace := trace w @ [Allocated (Suc (blocks w)) n]\<rparr>) w' \<Longrightarrow>
     grows_to w n (Exception e (v', w'))"
  by (simp add: grows_to_def allocated_first_later)

lemma grows_to_Normal:
  "later (w\<lparr>blocks := Suc (blocks w), trace := trace w @ [Allocated (Suc (blocks w)) n]\<rparr>) w' \<Longrightarrow>
     Capacity v' = n \<Longrightarrow> buffer_m (data_m v') = Suc (blocks w) \<Longrightarrow>
     grows_to w n (Normal x (v', w'))"
  by (simp add: grows_to_def allocated_first_later)

lemma EmplaceBack_grows_in:
  fixes v :: "'a Vector"
  assumes ctor: "RawMemory_ctor cfg (new_capacity (size_m v)) w =
        Normal \<lparr>buffer_m = Suc (blocks w), capacity_m = X, cells = replicate X Raw\<rparr>
          (w\<lparr>blocks := Suc (blocks w), trace := trace w @ [Allocated (Suc (blocks w)) X]\<rparr>)"
    and full: "size_m v = Capacity v"
    and in_new: "size_m v < X"
    and len: "length (cells (data_m v)) = size_m v"
    and alive: "\<forall>i<size_m v. is_Obj (cells (data_m v) ! i)"
  shows "grows_to w X (EmplaceBack cfg ar (v, w))
         \<and> ((\<exists>k m. may_throw cfg k m) \<or> returns (EmplaceBack cfg ar (v, w)))"
proof -
  let ?a = "Suc (blocks w)"
  let ?w1 = "w\<lparr>blocks := ?a, trace := trace w @ [Allocated ?a X]\<rparr>"
  let ?nd = "\<lparr>buffer_m = ?a, capacity_m = X, cells = replicate X (Raw :: 'a slot)\<rparr>"
  let ?src = "cells (data_m v)"
  let ?k = "args_kind ar"
  let ?x = "args_value ar"
  from full have cond: "(size_m v = Capacity v) = True"
    by simp
  show ?thesis
  proof (cases "may_throw cfg ?k (calls w)")
    case True
    let ?w2 = "?w1\<lparr>calls := Suc (calls ?w1), trace := trace ?w1 @ [Threw ?k]\<rparr>"
    from True in_new have run: "EmplaceBack cfg ar (v, w) =
        Exception (MemberThrew ?k) (v, Deallocate ?a ?w2)"
      by (simp add: EmplaceBack_def cond ctor plus_aborts_def construct_at_def RawMemory_dtor_def)
    have "later ?w1 (Deallocate ?a ?w2)"
      by (simp add: later_def Deallocate_def)
    then have "grows_to w X (Exception (MemberThrew ?k) (v, Deallocate ?a ?w2))"
      by (rule grows_to_Exception)
    with True show ?thesis
      unfolding run by blast
  next
    case False
    let ?w2 = "?w1\<lparr>calls := Suc (calls ?w1),
      trace := trace ?w1 @ [Constructed ?k ?a (size_m v)]\<rparr>"
    let ?d1 = "(replicate X (Raw :: 'a slot))[size_m v := Obj ?x]"
    have l12: "later ?w1 ?w2"
      by (simp add: later_def)
    from len alive have reads: "\<forall>i<size_m v. read_obj ?src (0 + i) \<noteq> None"
      unfolding read_obj_live_iff by simp
    from in_new have room: "0 + size_m v \<le> length ?d1"
      by simp
    from False in_new have head: "EmplaceBack cfg ar (v, w) =
        (case SafeCopyingOrMoving cfg 0 (size_m v) ?a 0 (?src, ?d1, ?w2) of
           Normal u s3 \<Rightarrow>
             (case adopt v ?nd s3 of
                Normal u s4 \<Rightarrow> bump_and_back cfg s4
              | Exception e s4 \<Rightarrow> Exception e s4
              | AssertFail \<Rightarrow> AssertFail
              | Undefined \<Rightarrow> Undefined)
         | Exception e (src, dst', w3) \<Rightarrow>
             Exception e (with_cells v src, RawMemory_dtor (?nd\<lparr>cells := dst'\<rparr>) w3)
         | AssertFail \<Rightarrow> AssertFail
         | Undefined \<Rightarrow> Undefined)"
      by (simp add: EmplaceBack_def cond ctor plus_aborts_def construct_at_def)
    from SafeCopyingOrMoving_progress [OF reads room, of cfg ?a ?w2]
    obtain src' dst' w3 where
      run: "SafeCopyingOrMoving cfg 0 (size_m v) ?a 0 (?src, ?d1, ?w2) = Normal () (src', dst', w3)
            \<or> (\<exists>e. SafeCopyingOrMoving cfg 0 (size_m v) ?a 0 (?src, ?d1, ?w2) =
                      Exception e (src', dst', w3))
              \<and> (\<exists>k m. may_throw cfg k m)"
      and sl: "still_live ?src src'" and same: "same_outside ?d1 dst' 0 (0 + size_m v)"
      and l23: "later ?w2 w3"
      by blast
    have l13: "later ?w1 w3"
      by (rule later_trans [OF l12 l23])
    from run show ?thesis
    proof
      assume n: "SafeCopyingOrMoving cfg 0 (size_m v) ?a 0 (?src, ?d1, ?w2) =
        Normal () (src', dst', w3)"
      from sl len have fits: "size_m v \<le> length src'"
        by (simp add: still_live_def)
      from sl len alive have live: "\<forall>i<size_m v. is_Obj (src' ! i)"
        by (simp add: still_live_def)
      from adopt_progress [OF fits live, of ?nd dst' w3] obtain w4 where
        ad: "adopt v ?nd (src', dst', w3) = Normal () (v\<lparr>data_m := ?nd\<lparr>cells := dst'\<rparr>\<rparr>, w4)"
        and l34: "later w3 w4"
        by blast
      from same_outside_nth [OF same, of "size_m v"] in_new
      have "dst' ! size_m v = Obj ?x"
        by simp
      moreover from same in_new have "size_m v < length dst'"
        by (simp add: same_outside_def)
      ultimately have "read_obj dst' (size_m v) = Some ?x"
        by (simp add: read_obj_def)
      with in_new n ad have result: "EmplaceBack cfg ar (v, w) =
          Normal ?x (v\<lparr>data_m := ?nd\<lparr>cells := dst'\<rparr>, size_m := Suc (size_m v)\<rparr>, w4)"
        by (simp add: head bump_and_back_def RawMemory_at_def)
      have "later ?w1 w4"
        by (rule later_trans [OF l13 l34])
      then have "grows_to w X
          (Normal ?x (v\<lparr>data_m := ?nd\<lparr>cells := dst'\<rparr>, size_m := Suc (size_m v)\<rparr>, w4))"
        by (rule grows_to_Normal) (simp_all add: Capacity_def)
      then show ?thesis
        unfolding result by (simp add: returns_def)
    next
      assume "(\<exists>e. SafeCopyingOrMoving cfg 0 (size_m v) ?a 0 (?src, ?d1, ?w2) =
                      Exception e (src', dst', w3))
              \<and> (\<exists>k m. may_throw cfg k m)"
      then obtain e where e: "SafeCopyingOrMoving cfg 0 (size_m v) ?a 0 (?src, ?d1, ?w2) =
          Exception e (src', dst', w3)"
        and loud: "\<exists>k m. may_throw cfg k m"
        by blast
      from e have result: "EmplaceBack cfg ar (v, w) =
          Exception e (with_cells v src', Deallocate ?a w3)"
        by (simp add: head RawMemory_dtor_def)
      have "later ?w1 (Deallocate ?a w3)"
        by (rule later_trans [OF l13]) simp
      then have "grows_to w X (Exception e (with_cells v src', Deallocate ?a w3))"
        by (rule grows_to_Exception)
      with loud show ?thesis
        unfolding result by blast
    qed
  qed
qed

lemma grown_block:
  assumes ok: "Vector_ok v" and full: "size_m v = Capacity v"
    and fit: "max 1 (Capacity v) * sizeof cfg \<le> PTRDIFF_MAX"
  shows "RawMemory_ctor cfg (new_capacity (size_m v)) w =
           (if refuses cfg w (max 1 (Capacity v * 2)) then Exception BadAlloc w
            else Normal \<lparr>buffer_m = Suc (blocks w), capacity_m = max 1 (Capacity v * 2),
                          cells = replicate (max 1 (Capacity v * 2)) Raw\<rparr>
                   (w\<lparr>blocks := Suc (blocks w),
                      trace := trace w @ [Allocated (Suc (blocks w)) (max 1 (Capacity v * 2))]\<rparr>))"
proof -
  note fv = full_vector [OF ok full fit]
  have "max 1 (Capacity v * 2) \<noteq> 0"
    by simp
  then show ?thesis
    unfolding fv(1) using fv(2) by (rule RawMemory_ctor_nowrap)
qed

lemma EmplaceBack_grows:
  assumes ok: "Vector_ok v" and full: "size_m v = Capacity v"
    and fit: "max 1 (Capacity v) * sizeof cfg \<le> PTRDIFF_MAX"
    and granted: "\<not> refuses cfg w (max 1 (Capacity v * 2))"
  shows "grows_to w (max 1 (Capacity v * 2)) (EmplaceBack cfg ar (v, w))
         \<and> ((\<exists>k m. may_throw cfg k m) \<or> returns (EmplaceBack cfg ar (v, w)))"
proof -
  note fv = full_vector [OF ok full fit]
  from granted have ctor: "RawMemory_ctor cfg (new_capacity (size_m v)) w =
      Normal \<lparr>buffer_m = Suc (blocks w), capacity_m = max 1 (Capacity v * 2),
               cells = replicate (max 1 (Capacity v * 2)) Raw\<rparr>
        (w\<lparr>blocks := Suc (blocks w),
           trace := trace w @ [Allocated (Suc (blocks w)) (max 1 (Capacity v * 2))]\<rparr>)"
    by (simp only: grown_block [OF ok full fit] if_False)
  from ctor full fv(3) fv(4) fv(5) show ?thesis
    by (rule EmplaceBack_grows_in)
qed


lemma Emplace_grows_in:
  fixes v :: "'a Vector"
  assumes ctor: "RawMemory_ctor cfg (new_capacity (size_m v)) w =
        Normal \<lparr>buffer_m = Suc (blocks w), capacity_m = X, cells = replicate X Raw\<rparr>
          (w\<lparr>blocks := Suc (blocks w), trace := trace w @ [Allocated (Suc (blocks w)) X]\<rparr>)"
    and full: "size_m v = Capacity v"
    and in_new: "size_m v < X"
    and len: "length (cells (data_m v)) = size_m v"
    and alive: "\<forall>i<size_m v. is_Obj (cells (data_m v) ! i)"
    and pos: "pos \<le> size_m v"
  shows "(grows_to w X (Emplace cfg pos ar (v, w)) \<or> Emplace cfg pos ar (v, w) = Undefined)
         \<and> ((\<exists>k m. may_throw cfg k m) \<or> returns (Emplace cfg pos ar (v, w)))"
proof -
  let ?a = "Suc (blocks w)"
  let ?w1 = "w\<lparr>blocks := ?a, trace := trace w @ [Allocated ?a X]\<rparr>"
  let ?nd = "\<lparr>buffer_m = ?a, capacity_m = X, cells = replicate X (Raw :: 'a slot)\<rparr>"
  let ?src = "cells (data_m v)"
  let ?k = "args_kind ar"
  let ?x = "args_value ar"
  from full have cond: "(size_m v = Capacity v) = True"
    by simp
  from pos in_new have pos_new: "pos < X" "pos \<le> X"
    by simp_all
  show ?thesis
  proof (cases "may_throw cfg ?k (calls w)")
    case True
    let ?w2 = "?w1\<lparr>calls := Suc (calls ?w1), trace := trace ?w1 @ [Threw ?k]\<rparr>"
    from True pos_new have run: "Emplace cfg pos ar (v, w) =
        Exception (MemberThrew ?k) (v, Deallocate ?a ?w2)"
      by (simp add: Emplace_def Emplace_full_def cond ctor plus_aborts_def construct_at_def
          RawMemory_dtor_def)
    have "later ?w1 (Deallocate ?a ?w2)"
      by (simp add: later_def Deallocate_def)
    then have "grows_to w X (Exception (MemberThrew ?k) (v, Deallocate ?a ?w2))"
      by (rule grows_to_Exception)
    with True show ?thesis
      unfolding run by blast
  next
    case False
    let ?w2 = "?w1\<lparr>calls := Suc (calls ?w1), trace := trace ?w1 @ [Constructed ?k ?a pos]\<rparr>"
    let ?d1 = "(replicate X (Raw :: 'a slot))[pos := Obj ?x]"
    have l12: "later ?w1 ?w2"
      by (simp add: later_def)
    from len alive pos have reads: "\<forall>i<pos. read_obj ?src (0 + i) \<noteq> None"
      unfolding read_obj_live_iff by simp
    from pos_new have here: "pos < length ?d1" "is_Obj (?d1 ! pos)"
      by (simp_all add: is_Obj_def)
    from pos_new have cap: "pos \<le> capacity_m ?nd"
      by simp
    from Emplace_before_progress [OF reads here cap, of cfg ?w2]
    obtain src3 dst3 w3 where
      eb: "Emplace_before cfg pos ?nd (?src, ?d1, ?w2) = Normal () (src3, dst3, w3)"
      and sl3: "still_live ?src src3" and len3: "length dst3 = length ?d1"
      and l23: "later ?w2 w3"
      by blast
    from len alive pos have "\<forall>i<size_m v - pos. read_obj ?src (pos + i) \<noteq> None"
      unfolding read_obj_live_iff by auto
    with sl3 have reads3: "\<forall>i<size_m v - pos. read_obj src3 (pos + i) \<noteq> None"
      by (rule still_live_reads)
    from len3 in_new have room3: "Suc (size_m v) \<le> length dst3"
      by simp
    have l13: "later ?w1 w3"
      by (rule later_trans [OF l12 l23])
    from Emplace_after_progress [OF reads3 pos room3 cap, of cfg w3] show ?thesis
    proof
      assume u: "Emplace_after cfg pos (size_m v) ?nd (src3, dst3, w3) = Undefined
        \<and> (\<exists>k m. may_throw cfg k m)"
      with False pos_new eb have "Emplace cfg pos ar (v, w) = Undefined"
        by (simp add: Emplace_def Emplace_full_def cond ctor plus_aborts_def construct_at_def)
      with u show ?thesis
        by blast
    next
      assume "\<exists>src' dst' w'. Emplace_after cfg pos (size_m v) ?nd (src3, dst3, w3) =
          Normal () (src', dst', w')
        \<and> still_live src3 src' \<and> later w3 w'"
      then obtain src4 dst4 w4 where
        ea: "Emplace_after cfg pos (size_m v) ?nd (src3, dst3, w3) = Normal () (src4, dst4, w4)"
        and sl4: "still_live src3 src4" and l34: "later w3 w4"
        by blast
      have sl: "still_live ?src src4"
        by (rule still_live_trans [OF sl3 sl4])
      from sl len have fits: "size_m v \<le> length src4"
        by (simp add: still_live_def)
      from sl len alive have live: "\<forall>i<size_m v. is_Obj (src4 ! i)"
        by (simp add: still_live_def)
      from adopt_progress [OF fits live, of ?nd dst4 w4] obtain w5 where
        ad: "adopt v ?nd (src4, dst4, w4) = Normal () (v\<lparr>data_m := ?nd\<lparr>cells := dst4\<rparr>\<rparr>, w5)"
        and l45: "later w4 w5"
        by blast
      from False pos_new eb ea ad have result: "Emplace cfg pos ar (v, w) =
          Normal pos (v\<lparr>data_m := ?nd\<lparr>cells := dst4\<rparr>, size_m := Suc (size_m v)\<rparr>, w5)"
        by (simp add: Emplace_def Emplace_full_def cond ctor plus_aborts_def construct_at_def)
      have "later ?w1 w5"
        by (rule later_trans [OF later_trans [OF l13 l34] l45])
      then have "grows_to w X
          (Normal pos (v\<lparr>data_m := ?nd\<lparr>cells := dst4\<rparr>, size_m := Suc (size_m v)\<rparr>, w5))"
        by (rule grows_to_Normal) (simp_all add: Capacity_def)
      then show ?thesis
        unfolding result by (simp add: returns_def)
    qed
  qed
qed

lemma Emplace_grows:
  assumes ok: "Vector_ok v" and full: "size_m v = Capacity v"
    and fit: "max 1 (Capacity v) * sizeof cfg \<le> PTRDIFF_MAX"
    and granted: "\<not> refuses cfg w (max 1 (Capacity v * 2))"
    and pos: "pos \<le> size_m v"
  shows "(grows_to w (max 1 (Capacity v * 2)) (Emplace cfg pos ar (v, w))
          \<or> Emplace cfg pos ar (v, w) = Undefined)
         \<and> ((\<exists>k m. may_throw cfg k m) \<or> returns (Emplace cfg pos ar (v, w)))"
proof -
  note fv = full_vector [OF ok full fit]
  from granted have ctor: "RawMemory_ctor cfg (new_capacity (size_m v)) w =
      Normal \<lparr>buffer_m = Suc (blocks w), capacity_m = max 1 (Capacity v * 2),
               cells = replicate (max 1 (Capacity v * 2)) Raw\<rparr>
        (w\<lparr>blocks := Suc (blocks w),
           trace := trace w @ [Allocated (Suc (blocks w)) (max 1 (Capacity v * 2))]\<rparr>)"
    by (simp only: grown_block [OF ok full fit] if_False)
  from ctor full fv(3) fv(4) fv(5) pos show ?thesis
    by (rule Emplace_grows_in)
qed

lemma refused_at_capacity:
  assumes ok: "Vector_ok v" and full: "size_m v = Capacity v"
    and fit: "max 1 (Capacity v) * sizeof cfg \<le> PTRDIFF_MAX"
    and refused: "refuses cfg w (max 1 (Capacity v * 2))"
  shows "EmplaceBack cfg ar (v, w) = Exception BadAlloc (v, w)"
    and "Emplace cfg pos ar (v, w) = Exception BadAlloc (v, w)"
proof -
  from full have cond: "(size_m v = Capacity v) = True"
    by simp
  from refused have ctor: "RawMemory_ctor cfg (new_capacity (size_m v)) w = Exception BadAlloc w"
    by (simp only: grown_block [OF ok full fit] if_True)
  show "EmplaceBack cfg ar (v, w) = Exception BadAlloc (v, w)"
    by (simp add: EmplaceBack_def cond ctor)
  show "Emplace cfg pos ar (v, w) = Exception BadAlloc (v, w)"
    by (simp add: Emplace_def Emplace_full_def cond ctor)
qed

lemma grows_to_unit:
  "grows_to w n r \<Longrightarrow>
     grows_to w n (case r of Normal x s' \<Rightarrow> Normal () s' | Exception e s' \<Rightarrow> Exception e s'
                   | AssertFail \<Rightarrow> AssertFail | Undefined \<Rightarrow> Undefined)"
  by (cases r) (simp_all add: grows_to_def)

lemma returns_unit:
  "returns r \<Longrightarrow>
     returns (case r of Normal x s' \<Rightarrow> Normal () s' | Exception e s' \<Rightarrow> Exception e s'
              | AssertFail \<Rightarrow> AssertFail | Undefined \<Rightarrow> Undefined)"
  by (cases r) (simp_all add: returns_def)



section \<open>Further properties of Emplace, Insert and Erase\<close>

text \<open>
  When the construction of the new element itself throws (line 373) in \<^verbatim>\<open>Emplace\<close> on a
  full, well-formed vector, the new block is released, the exception reaches the caller and
  the vector is as it was.
\<close>

lemma Emplace_construction_failure:
  assumes "Vector_ok v" and "size_m v = Capacity v" and "pos \<le> size_m v"
    and "max 1 (Capacity v * 2) * sizeof cfg \<le> PTRDIFF_MAX"
    and "\<not> bad_alloc cfg (blocks w) (max 1 (Capacity v * 2) * sizeof cfg)"
    and "may_throw cfg (args_kind ar) (calls w)"
  shows "Emplace cfg pos ar (v, w) =
     Exception (MemberThrew (args_kind ar))
       (v, w\<lparr>blocks := Suc (blocks w), calls := Suc (calls w),
              trace := trace w @ [Allocated (Suc (blocks w)) (max 1 (Capacity v * 2)),
                                  Threw (args_kind ar), Deallocated (Suc (blocks w))]\<rparr>)"
proof -
  note g = grown_capacity [OF assms(1,2)]
  have "max 1 (Capacity v * 2) \<noteq> 0"
    by simp
  then have ctor: "RawMemory_ctor cfg (new_capacity (size_m v)) w =
      Normal \<lparr>buffer_m = Suc (blocks w), capacity_m = max 1 (Capacity v * 2),
              cells = replicate (max 1 (Capacity v * 2)) Raw\<rparr>
        (w\<lparr>blocks := Suc (blocks w),
           trace := trace w @ [Allocated (Suc (blocks w)) (max 1 (Capacity v * 2))]\<rparr>)"
    unfolding g using assms(4,5) by (rule RawMemory_ctor_granted)
  from assms(2,3) have room: "pos < max 1 (Capacity v * 2)" "pos \<le> max 1 (Capacity v * 2)"
    by simp_all
  show ?thesis
    using assms(6) room
    by (simp add: Emplace_def Emplace_full_def assms(2) [symmetric] ctor plus_aborts_def
        construct_at_def RawMemory_dtor_def Deallocate_def)
qed

text \<open>
  For \<^verbatim>\<open>int\<close>, \<^verbatim>\<open>Insert\<close> at position \<open>1\<close> followed by \<^verbatim>\<open>Erase\<close> at the position
  returned gives back \<open>[10, 20]\<close>, on a full vector and on one with spare capacity.
\<close>

lemma Insert_Erase_int_full:
  "and_then (Insert_copy (int_setting True) 1 99 (vector_of 1 2 [10, 20], fresh_world 1))
     (\<lambda>i. Erase (int_setting True) i) =
   Normal 1
     (\<lparr>data_m = \<lparr>buffer_m = 2, capacity_m = 4, cells = [Obj 10, Obj 20, Raw, Raw]\<rparr>,
       size_m = 2\<rparr>,
      \<lparr>blocks = 2, calls = 4,
       trace = [Allocated 2 4, Constructed CopyCtor 2 1, Constructed MoveCtor 2 0,
                Constructed MoveCtor 2 2, Destroyed 1 0, Destroyed 1 1, Deallocated 1,
                Assigned MoveAssign 2 1, Destroyed 2 2]\<rparr>)"
  by (simp add: run_defs unroll and_then_def)

lemma Insert_Erase_int_spare:
  "and_then (Insert_copy (int_setting True) 1 99 (vector_of 1 4 [10, 20], fresh_world 1))
     (\<lambda>i. Erase (int_setting True) i) =
   Normal 1
     (\<lparr>data_m = \<lparr>buffer_m = 1, capacity_m = 4, cells = [Obj 10, Obj 20, Raw, Raw]\<rparr>,
       size_m = 2\<rparr>,
      \<lparr>blocks = 1, calls = 4,
       trace = [Assigned MoveAssign 1 2, Constructed MoveCtor 1 1, Assigned MoveAssign 1 1,
                Destroyed 1 2]\<rparr>)"
  by (simp add: run_defs unroll and_then_def)

text \<open>
  The scenario of the specification: from the empty vector of \<^verbatim>\<open>int\<close>,
  \<^verbatim>\<open>PushBack(1); PushBack(2); Insert(begin() + 1, 99); Erase(begin())\<close> yields \<open>[99, 2]\<close>.
\<close>

lemma push_insert_erase_scenario:
  "and_then
     (and_then
        (and_then (PushBack_copy (int_setting True) 1 (Vector_default, fresh_world 0))
           (\<lambda>u. PushBack_copy (int_setting True) 2))
        (\<lambda>u. Insert_copy (int_setting True) 1 99))
     (\<lambda>i. Erase (int_setting True) 0) =
   Normal 0
     (\<lparr>data_m = \<lparr>buffer_m = 3, capacity_m = 4, cells = [Obj 99, Obj 2, Raw, Raw]\<rparr>,
       size_m = 2\<rparr>,
      \<lparr>blocks = 3, calls = 8,
       trace = [Allocated 1 1, Constructed CopyCtor 1 0, Allocated 2 2,
                Constructed CopyCtor 2 1, Constructed MoveCtor 2 0, Destroyed 1 0,
                Deallocated 1, Allocated 3 4, Constructed CopyCtor 3 1,
                Constructed MoveCtor 3 0, Constructed MoveCtor 3 2, Destroyed 2 0,
                Destroyed 2 1, Deallocated 2, Assigned MoveAssign 3 0,
                Assigned MoveAssign 3 1, Destroyed 3 2]\<rparr>)"
  by (simp add: run_defs unroll and_then_def PushBack_copy_def)

text \<open>
  With spare capacity, line 409 assigns to the raw cell at \<^verbatim>\<open>end()\<close>: for an element type
  that is not an implicit-lifetime type the behaviour is undefined, although nothing throws.
  And with \<^verbatim>\<open>pos == end()\<close> on a non-empty vector, line 417 passes \<^verbatim>\<open>begin() + size\<close> and
  \<^verbatim>\<open>end() - 2\<close>, the first behind the second, to \<^verbatim>\<open>std::move_backward\<close>.
\<close>

lemma Insert_spare_class_type:
  "Insert_copy (throwing_copy 9) 1 99 (vector_of 1 4 [10, 20], fresh_world 1) = Undefined"
  by (simp add: run_defs unroll)

lemma Insert_spare_at_end:
  "Insert_copy (int_setting True) 2 99 (vector_of 1 4 [10, 20], fresh_world 1) = Undefined"
  by (simp add: run_defs unroll)

text \<open>
  Where the product \<^verbatim>\<open>n * sizeof(T)\<close> of line 87 wraps around, \<^verbatim>\<open>Allocate\<close> obtains a
  block shorter than the capacity recorded for it.  With \<^verbatim>\<open>sizeof (int) == 4\<close>:
  \<^verbatim>\<open>Reserve\<close> of \<open>2 ^ 62\<close> elements on \<open>[10, 20, 30]\<close> requests \<open>0\<close> bytes and copies into
  that block; on the empty vector \<^verbatim>\<open>Reserve\<close> of \<open>2 ^ 63\<close> returns with the capacity
  \<open>2 ^ 63\<close> and a block without cells, and \<^verbatim>\<open>Resize\<close> to \<open>2 ^ 63\<close> constructs outside it.
\<close>

lemma Reserve_byte_count_wraps:
  "Reserve (int_setting True) (2 ^ 62) (vector_of 1 3 [10, 20, 30], fresh_world 1) = Undefined"
  "Reserve (int_setting True) (2 ^ 63) (Vector_default, fresh_world 0) =
     Normal ()
       (\<lparr>data_m = \<lparr>buffer_m = 1, capacity_m = 2 ^ 63, cells = []\<rparr>, size_m = 0\<rparr>,
        \<lparr>blocks = 1, calls = 0, trace = [Allocated 1 (2 ^ 63)]\<rparr>)"
  "Resize (int_setting True) (2 ^ 63) (Vector_default, fresh_world 0) = Undefined"
  by (simp_all add: run_defs unroll)

end
